theory Spec2Isabelle
  imports Main "HOL-Library.Word" "HOL-Library.Multiset"
begin

unbundle bit_operations_syntax

section \<open>JavaScript values used by lib/argon2.js\<close>

text \<open>
  A byte of the engine's linear memory is an 8-bit word. A password or salt given as a
  JavaScript string is the list of its UTF-16 code units, so that \<open>length\<close> is
  \<open>String.prototype.length\<close>. URLs and messages are plain texts.
\<close>

type_synonym byte = "8 word"
type_synonym jsstring = "16 word list"

text \<open>The values that \<open>err\<close> of \<open>calcHash\<close> can hold, with JavaScript truthiness.\<close>

datatype jsval = JUndefined | JStr string | JObj string

fun truthy :: "jsval \<Rightarrow> bool" where
  "truthy JUndefined = False"
| "truthy (JStr s) = (s \<noteq> [])"
| "truthy (JObj d) = True"

text \<open>\<open>x || d\<close> on an optional number: \<open>undefined\<close> and \<open>0\<close> are falsy.\<close>

definition or_default :: "nat option \<Rightarrow> nat \<Rightarrow> nat" where
  "or_default x d = (case x of None \<Rightarrow> d | Some v \<Rightarrow> if v = 0 then d else v)"

text \<open>Truthiness of an optional text (a URL): \<open>undefined\<close> and the empty string are falsy.\<close>

definition truthy_url :: "string option \<Rightarrow> bool" where
  "truthy_url u = (case u of None \<Rightarrow> False | Some s \<Rightarrow> s \<noteq> [])"

text \<open>String concatenation with a possibly undefined operand.\<close>

definition to_text :: "string option \<Rightarrow> string" where
  "to_text u = (case u of None \<Rightarrow> ''undefined'' | Some s \<Rightarrow> s)"

section \<open>Parameters of a call\<close>

text \<open>\<open>ArgonType\<close> (lines 15-18).\<close>

definition Argon2d :: nat where "Argon2d = 0"
definition Argon2i :: nat where "Argon2i = 1"

text \<open>A password or salt: a string, or a \<open>Uint8Array\<close>/\<open>Array\<close> of bytes.\<close>

datatype input = StrIn jsstring | ArrIn "byte list"

record params =
  pass :: input
  salt :: input
  time :: "nat option"
  mem :: "nat option"
  hashLen :: "nat option"
  parallelism :: "nat option"
  type :: "nat option"
  asmFileUrl :: "string option"
  wasmFileUrl :: "string option"
  argon2FileUrl :: "string option"
  cacheKey :: "string option"

text \<open>\<open>.length\<close> of a password or salt (lines 174, 176).\<close>

fun input_length :: "input \<Rightarrow> nat" where
  "input_length (StrIn s) = length s"
| "input_length (ArrIn bs) = length bs"

section \<open>Text encoding of the engine runtime\<close>

text \<open>
  Modelled from the spec: \<open>Module.intArrayFromString\<close>, a helper of the generated
  engine runtime that is not part of lib/argon2.js. The specification says that allocating
  a string value first encodes it to bytes using the engine's native text representation.
  That representation is UTF-8 as the runtime writes it: one byte up to 0x7F, two bytes up
  to 0x7FF, three bytes up to 0xFFFF; a code unit in the surrogate range 0xD800-0xDFFF is
  combined with the low ten bits of the code unit that follows it (0 at the end of the
  string), which gives a value from 0x10000 on and four bytes. The runtime helper takes a
  second argument \<open>dontAddNull\<close>; without it a terminating zero byte follows the text.
\<close>

definition utf8_char :: "nat \<Rightarrow> nat list" where
  "utf8_char u =
     (if u \<le> 0x7F then [u]
      else if u \<le> 0x7FF then [0xC0 + u div 64, 0x80 + u mod 64]
      else if u \<le> 0xFFFF then [0xE0 + u div 4096, 0x80 + (u div 64) mod 64, 0x80 + u mod 64]
      else [0xF0 + u div 262144, 0x80 + (u div 4096) mod 64, 0x80 + (u div 64) mod 64,
            0x80 + u mod 64])"

definition surrogate :: "nat \<Rightarrow> bool" where
  "surrogate u \<longleftrightarrow> 0xD800 \<le> u \<and> u \<le> 0xDFFF"

fun utf8_encode :: "nat list \<Rightarrow> nat list" where
  "utf8_encode [] = []"
| "utf8_encode [u] =
     (if surrogate u then utf8_char (0x10000 + (u mod 1024) * 1024) else utf8_char u)"
| "utf8_encode (u # v # vs) =
     (if surrogate u
      then utf8_char (0x10000 + (u mod 1024) * 1024 + v mod 1024) @ utf8_encode vs
      else utf8_char u @ utf8_encode (v # vs))"

definition intArrayFromString :: "jsstring \<Rightarrow> bool \<Rightarrow> byte list" where
  "intArrayFromString stringy dontAddNull =
     map of_nat (utf8_encode (map unat stringy)) @ (if dontAddNull then [] else [0])"

section \<open>The engine's native surface\<close>

text \<open>
  The thirteen arguments of \<open>Module._argon2_hash\<close> (lines 185-186), named after the
  local variables of \<open>calcHash\<close>.
\<close>

record hash_args =
  a_tCost :: nat
  a_mCost :: nat
  a_parallelism :: nat
  a_pwd :: nat
  a_pwdlen :: nat
  a_salt :: nat
  a_saltlen :: nat
  a_hash :: nat
  a_hashlen :: nat
  a_encoded :: nat
  a_encodedlen :: nat
  a_argon2Type :: nat
  a_version :: nat

text \<open>
  The engine is a parameter: its functions act on an engine state \<open>'s\<close> (the linear
  memory and the allocator). The calls that lib/argon2.js guards with \<open>try\<close> may throw:
  \<open>_argon2_hash\<close> returns a thrown value or an integer status,
  \<open>_argon2_error_message\<close> a thrown value or a pointer, and \<open>_free\<close> an optional
  thrown value. \<open>allocate\<close> copies the given bytes and returns their address.
\<close>

record 's engine =
  allocate :: "byte list \<Rightarrow> 's \<Rightarrow> nat \<times> 's"
  argon2_hash :: "hash_args \<Rightarrow> 's \<Rightarrow> (jsval + int) \<times> 's"
  argon2_error_message :: "int \<Rightarrow> 's \<Rightarrow> jsval + nat"
  Pointer_stringify :: "nat \<Rightarrow> 's \<Rightarrow> string"
  HEAP8 :: "'s \<Rightarrow> nat \<Rightarrow> byte"
  free :: "nat \<Rightarrow> 's \<Rightarrow> jsval option \<times> 's"

text \<open>
  The calls into the arena and the hashing function that one run of \<open>calcHash\<close> makes
  are recorded in order, so that allocation accounting can be stated. An allocation is
  recorded with its address and the number of bytes written.
\<close>

datatype call =
  Alloc nat nat
| Invoke hash_args
| Release nat
| ReleaseFailed nat

fun allocated :: "call list \<Rightarrow> nat list" where
  "allocated [] = []"
| "allocated (Alloc a n # cs) = a # allocated cs"
| "allocated (c # cs) = allocated cs"

fun released :: "call list \<Rightarrow> nat list" where
  "released [] = []"
| "released (Release a # cs) = a # released cs"
| "released (c # cs) = released cs"

fun invoked :: "call list \<Rightarrow> hash_args list" where
  "invoked [] = []"
| "invoked (Invoke a # cs) = a # invoked cs"
| "invoked (c # cs) = invoked cs"

text \<open>The allocations of a trace that no later release matches.\<close>

fun outstanding :: "call list \<Rightarrow> nat list \<Rightarrow> nat list" where
  "outstanding [] live = live"
| "outstanding (Alloc a n # cs) live = outstanding cs (live @ [a])"
| "outstanding (Release a # cs) live = outstanding cs (remove1 a live)"
| "outstanding (c # cs) live = outstanding cs live"

section \<open>allocateArray (lines 40-44)\<close>

definition to_array :: "input \<Rightarrow> byte list" where
  "to_array strOrArr =
     (case strOrArr of ArrIn arr \<Rightarrow> arr | StrIn s \<Rightarrow> intArrayFromString s False)"

definition allocateArray :: "'s engine \<Rightarrow> input \<Rightarrow> 's \<Rightarrow> nat \<times> 's" where
  "allocateArray M strOrArr s = allocate M (to_array strOrArr) s"

section \<open>calcHash (lines 169-221)\<close>

record hresult =
  hash :: "byte list"
  hashHex :: string
  encoded :: string

record herror =
  message :: jsval
  code :: "int option"

datatype result = ResHash hresult | ResError herror

datatype outcome = Returned result | Thrown result

text \<open>\<open>Number.prototype.toString(16)\<close> and \<open>slice(-2)\<close> (line 197).\<close>

definition hex_digit :: "nat \<Rightarrow> char" where
  "hex_digit d = ''0123456789abcdef'' ! d"

function toString16 :: "nat \<Rightarrow> string" where
  "toString16 n =
     (if n < 16 then [hex_digit n] else toString16 (n div 16) @ [hex_digit (n mod 16)])"
  by pat_completeness auto
termination
  by (relation "measure id") auto

declare toString16.simps [simp del]

definition slice_last2 :: "string \<Rightarrow> string" where
  "slice_last2 s = drop (length s - 2) s"

definition byte_hex :: "int \<Rightarrow> string" where
  "byte_hex b = slice_last2 (CHR ''0'' # toString16 (nat (255 AND b)))"

text \<open>
  The loop of lines 194-198. \<open>HEAP8\<close> is a signed view, so \<open>byte\<close> is the signed value
  of the stored byte; storing it into the \<open>Uint8Array\<close> wraps it back.
\<close>

function read_hash ::
  "'s engine \<Rightarrow> 's \<Rightarrow> nat \<Rightarrow> nat \<Rightarrow> nat \<Rightarrow> byte list \<Rightarrow> string \<Rightarrow> byte list \<times> string" where
  "read_hash M s hsh hashlen i hashArr hashStr =
     (if i < hashlen then
        (let byte = sint (HEAP8 M s (hsh + i))
         in read_hash M s hsh hashlen (i + 1)
              (hashArr[i := word_of_int byte]) (hashStr @ byte_hex byte))
      else (hashArr, hashStr))"
  by pat_completeness auto
termination
  by (relation "measure (\<lambda>(M, s, hsh, hashlen, i, hashArr, hashStr). hashlen - i)") auto

declare read_hash.simps [simp del]

text \<open>Lines 170-182: defaults and the four allocations.\<close>

definition calc_alloc :: "'s engine \<Rightarrow> params \<Rightarrow> 's \<Rightarrow> hash_args \<times> call list \<times> 's" where
  "calc_alloc M p s0 =
     (let tCost = or_default (time p) 1;
          mCost = or_default (mem p) 1024;
          parallelism = or_default (parallelism p) 1;
          (pwd, s1) = allocateArray M (pass p) s0;
          pwdlen = input_length (pass p);
          (salt, s2) = allocateArray M (salt p) s1;
          saltlen = input_length (params.salt p);
          (hash, s3) = allocate M (replicate (or_default (hashLen p) 24) 0) s2;
          hashlen = or_default (hashLen p) 24;
          (encoded, s4) = allocate M (replicate 512 0) s3;
          encodedlen = 512;
          argon2Type = or_default (type p) Argon2d;
          version = 0x13
      in (\<lparr>a_tCost = tCost, a_mCost = mCost, a_parallelism = parallelism,
           a_pwd = pwd, a_pwdlen = pwdlen, a_salt = salt, a_saltlen = saltlen,
           a_hash = hash, a_hashlen = hashlen, a_encoded = encoded,
           a_encodedlen = encodedlen, a_argon2Type = argon2Type, a_version = version\<rparr>,
          [Alloc pwd (length (to_array (pass p))),
           Alloc salt (length (to_array (params.salt p))),
           Alloc hash (length (replicate (or_default (hashLen p) 24) (0 :: byte))),
           Alloc encoded (length (replicate 512 (0 :: byte)))],
          s4))"

text \<open>
  Lines 190-209: the result object and the final value of \<open>err\<close>. \<open>r\<close> is what the
  guarded call of lines 184-189 left: a caught exception (then \<open>res\<close> is undefined) or
  the status. An undefined \<open>res\<close> reaches the native lookup as 0.
\<close>

definition calc_decode ::
  "'s engine \<Rightarrow> hash_args \<Rightarrow> (jsval + int) \<Rightarrow> 's \<Rightarrow> result \<times> jsval" where
  "calc_decode M a r s =
     (let err = (case r of Inl e \<Rightarrow> e | Inr n \<Rightarrow> JUndefined);
          res = (case r of Inl e \<Rightarrow> None | Inr n \<Rightarrow> Some n)
      in if res = Some 0 \<and> \<not> truthy err then
           (let (hashArr, hashStr) =
                  read_hash M s (a_hash a) (a_hashlen a) 0 (replicate (a_hashlen a) 0) [];
                encodedStr = Pointer_stringify M (a_encoded a) s
            in (ResHash \<lparr>hash = hashArr, hashHex = hashStr, encoded = encodedStr\<rparr>, err))
         else
           (let err' =
                  (if \<not> truthy err then
                     (case argon2_error_message M (case res of None \<Rightarrow> 0 | Some n \<Rightarrow> n) s of
                        Inl e \<Rightarrow> err
                      | Inr ptr \<Rightarrow> JStr (Pointer_stringify M ptr s))
                   else err)
            in (ResError \<lparr>message = err', code = res\<rparr>, err')))"

text \<open>Lines 210-215: the four releases inside one \<open>try\<close>; the first throw ends the block.\<close>

fun free_all :: "'s engine \<Rightarrow> nat list \<Rightarrow> 's \<Rightarrow> call list \<times> 's" where
  "free_all M [] s = ([], s)"
| "free_all M (ptr # ptrs) s =
     (case free M ptr s of
        (Some e, s') \<Rightarrow> ([ReleaseFailed ptr], s')
      | (None, s') \<Rightarrow> (let (cs, s'') = free_all M ptrs s' in (Release ptr # cs, s'')))"

definition calcHash :: "'s engine \<Rightarrow> params \<Rightarrow> 's \<Rightarrow> outcome \<times> call list \<times> 's" where
  "calcHash M p s0 =
     (let (a, allocs, s4) = calc_alloc M p s0;
          (r, s5) = argon2_hash M a s4;
          (result, err) = calc_decode M a r s5;
          (frees, s6) = free_all M [a_pwd a, a_salt a, a_hash a, a_encoded a] s5
      in (if truthy err then Thrown result else Returned result,
          allocs @ [Invoke a] @ frees, s6))"

section \<open>Backend selection and memory sizing (lines 72, 115-121)\<close>

record host =
  WebAssembly :: bool

datatype backend = Primary | Fallback

definition select_backend :: "host \<Rightarrow> params \<Rightarrow> backend" where
  "select_backend h p =
     (if \<not> WebAssembly h \<or> \<not> truthy_url (wasmFileUrl p) \<or> \<not> truthy_url (argon2FileUrl p)
      then Fallback else Primary)"

definition KB :: nat where "KB = 1024 * 1024"
definition MB :: nat where "MB = 1024 * KB"
definition GB :: nat where "GB = 1024 * MB"
definition WASM_PAGE_SIZE :: nat where "WASM_PAGE_SIZE = 64 * 1024"

definition totalMemory :: nat where
  "totalMemory = (2 * GB - 64 * KB) div 1024 div WASM_PAGE_SIZE"

text \<open>\<open>Math.ceil(a / b)\<close> on natural numbers.\<close>

definition ceil_div :: "nat \<Rightarrow> nat \<Rightarrow> nat" where
  "ceil_div a b = (a + b - 1) div b"

definition initialMemory :: "nat \<Rightarrow> nat" where
  "initialMemory m = min (max (ceil_div (m * 1024) WASM_PAGE_SIZE) 256 + 256) totalMemory"

section \<open>The loader: globals, promises and pending host work\<close>

text \<open>
  \<open>global.Module\<close> as line 127 creates it. \<open>wasmBinary\<close> is false while the field is
  \<open>null\<close>; \<open>postRun\<close> holds the closure of line 142, that is the promise it resolves
  and the parameters it hashes.
\<close>

record module =
  wasmBinary :: bool
  wasmJSMethod :: string
  asmjsCodeFile :: "string option"
  wasmBinaryFile :: "string option"
  wasmMemory_initial :: nat
  wasmMemory_maximum :: nat
  TOTAL_MEMORY :: nat
  postRun :: "(nat \<times> params) option"

text \<open>The promise returned by \<open>loadScript\<close>; a rejection carries the error as text.\<close>

datatype promise = PPending | PFulfilled | PRejected string

text \<open>
  What a promise returned by \<open>argon2Hash\<close> is settled with. A rejection value is a
  string (lines 109, 159, 163), an \<open>Error\<close> with a message (line 78), the
  \<open>TypeError\<close> of \<open>new WebAssembly.Memory\<close>, or an object thrown by \<open>calcHash\<close>.
\<close>

datatype reason = RText string | RError string | RTypeError | RObject result

datatype settlement = Pending | Resolved result | Rejected reason

text \<open>The call site of \<open>loadScript\<close>: line 73, or lines 103 and 156.\<close>

datatype script = AsmScript | WrapperScript

text \<open>One entry per run of \<open>calcHash\<close>: who ran it, on which path, and the globals then.\<close>

record calc_entry =
  ce_caller :: nat
  ce_backend :: backend
  ce_module :: bool
  ce_loaded :: bool

text \<open>
  The state of the page: the three globals of lib/argon2.js, the promises handed to
  callers (a caller is the index of its promise), the callbacks waiting for the host
  (timers, the request of line 137, script loads), the log of fetches, script loads and
  \<open>calcHash\<close> runs, the exceptions no handler caught, and the engine state.
\<close>

record 's state =
  Module :: "module option"
  globalModuleIsFullyLoaded :: bool
  loadArgon2WrapperPromise :: "promise option"
  wrapper_then :: "(nat \<times> params) list"
  wrapper_catch :: "nat list"
  promises :: "settlement list"
  retry_timers :: "(nat \<times> params) list"
  calc_timers :: "(nat \<times> params) list"
  xhr_pending :: "(nat \<times> params) list"
  asm_pending :: "(nat \<times> params) list"
  xhr_log :: "string option list"
  loadScript_log :: "(script \<times> string option) list"
  calc_log :: "calc_entry list"
  uncaught :: "result list"
  heap :: 's

definition init :: "'s \<Rightarrow> 's state" where
  "init s =
     \<lparr>Module = None, globalModuleIsFullyLoaded = False, loadArgon2WrapperPromise = None,
      wrapper_then = [], wrapper_catch = [], promises = [], retry_timers = [],
      calc_timers = [], xhr_pending = [], asm_pending = [], xhr_log = [],
      loadScript_log = [], calc_log = [], uncaught = [], heap = s\<rparr>"

text \<open>\<open>resolve\<close> and \<open>reject\<close>: only a pending promise changes.\<close>

definition settle :: "nat \<Rightarrow> settlement \<Rightarrow> 's state \<Rightarrow> 's state" where
  "settle c v st =
     (if c < length (promises st) \<and> promises st ! c = Pending
      then st\<lparr>promises := (promises st)[c := v]\<rparr> else st)"

text \<open>\<open>resolve(calcHash(params))\<close> (lines 106, 148): a throw of \<open>calcHash\<close> leaves the
  promise as it is and reaches no handler.\<close>

definition resolve_calc :: "'s engine \<Rightarrow> nat \<Rightarrow> params \<Rightarrow> 's state \<Rightarrow> 's state" where
  "resolve_calc M c p st =
     (let (out, cs, s') = calcHash M p (heap st);
          st1 = st\<lparr>heap := s',
                   calc_log := calc_log st @
                     [\<lparr>ce_caller = c, ce_backend = Primary, ce_module = (Module st \<noteq> None),
                       ce_loaded = globalModuleIsFullyLoaded st\<rparr>]\<rparr>
      in case out of
           Returned r \<Rightarrow> settle c (Resolved r) st1
         | Thrown r \<Rightarrow> st1\<lparr>uncaught := uncaught st1 @ [r]\<rparr>)"

text \<open>
  Modelled from the spec: the fallback glue script, generated by build-fallback.sh and not
  part of lib/argon2.js. The specification speaks of the single global mutable
  \<open>Module\<close> object that the source relies on, and \<open>calcHash\<close> reads that global
  (lines 173-214) right after the fallback script has loaded: the glue takes the global
  \<open>Module\<close> when there is one and defines it otherwise. On an object that the glue
  has defined, none of the fields of line 127 is set: its texts are empty, its numbers 0
  and \<open>postRun\<close> is absent.
\<close>

definition glue_module :: module where
  "glue_module =
     \<lparr>wasmBinary = False, wasmJSMethod = [], asmjsCodeFile = None, wasmBinaryFile = None,
      wasmMemory_initial = 0, wasmMemory_maximum = 0, TOTAL_MEMORY = 0, postRun = None\<rparr>"

definition fallback_glue :: "'s state \<Rightarrow> 's state" where
  "fallback_glue st = (case Module st of None \<Rightarrow> st\<lparr>Module := Some glue_module\<rparr> | Some m \<Rightarrow> st)"

text \<open>
  The fallback script has loaded: the glue has run, and then lines 74-79,
  \<open>.then(calcHash).catch(...)\<close>.
\<close>

definition asm_then :: "'s engine \<Rightarrow> nat \<Rightarrow> params \<Rightarrow> 's state \<Rightarrow> 's state" where
  "asm_then M c p st0 =
     (let st = fallback_glue st0;
          (out, cs, s') = calcHash M p (heap st);
          st1 = st\<lparr>heap := s',
                   calc_log := calc_log st @
                     [\<lparr>ce_caller = c, ce_backend = Fallback, ce_module = (Module st \<noteq> None),
                       ce_loaded = globalModuleIsFullyLoaded st\<rparr>]\<rparr>
      in case out of
           Returned r \<Rightarrow> settle c (Resolved r) st1
         | Thrown r \<Rightarrow>
             settle c (Rejected (RError (''Error loading argon2-asm.min.js: '' @ ''[object Object]''))) st1)"

definition wrapper_message :: "string \<Rightarrow> string" where
  "wrapper_message e = ''Error loading argon2.min.js (WASM already loaded): '' @ e"

text \<open>\<open>loadArgon2WrapperPromise = loadScript(params.argon2FileUrl)\<close> (lines 103, 156).\<close>

definition load_wrapper :: "params \<Rightarrow> 's state \<Rightarrow> 's state" where
  "load_wrapper p st =
     st\<lparr>loadArgon2WrapperPromise := Some PPending,
        loadScript_log := loadScript_log st @ [(WrapperScript, argon2FileUrl p)]\<rparr>"

text \<open>Lines 105-110: the callbacks of the ready path on the wrapper promise.\<close>

definition on_wrapper_then :: "nat \<Rightarrow> params \<Rightarrow> 's state \<Rightarrow> 's state" where
  "on_wrapper_then c p st =
     (case loadArgon2WrapperPromise st of
        None \<Rightarrow> st
      | Some PPending \<Rightarrow> st\<lparr>wrapper_then := wrapper_then st @ [(c, p)]\<rparr>
      | Some PFulfilled \<Rightarrow> st\<lparr>calc_timers := calc_timers st @ [(c, p)]\<rparr>
      | Some (PRejected e) \<Rightarrow> settle c (Rejected (RText (wrapper_message e))) st)"

text \<open>Lines 158-160: the \<open>catch\<close> callback of the first load.\<close>

definition on_wrapper_catch :: "nat \<Rightarrow> 's state \<Rightarrow> 's state" where
  "on_wrapper_catch c st =
     (case loadArgon2WrapperPromise st of
        None \<Rightarrow> st
      | Some PPending \<Rightarrow> st\<lparr>wrapper_catch := wrapper_catch st @ [c]\<rparr>
      | Some PFulfilled \<Rightarrow> st
      | Some (PRejected e) \<Rightarrow> settle c (Rejected (RText (wrapper_message e))) st)"

text \<open>
  The executor of line 84, run for caller \<open>c\<close>. An absent \<open>params.mem\<close> makes
  \<open>initialMemory\<close> not a number, \<open>new WebAssembly.Memory\<close> throws and the promise is
  rejected before \<open>global.Module\<close> is assigned.
\<close>

definition executor :: "nat \<Rightarrow> params \<Rightarrow> 's state \<Rightarrow> 's state" where
  "executor c p st =
     (if Module st \<noteq> None \<and> \<not> globalModuleIsFullyLoaded st then
        st\<lparr>retry_timers := retry_timers st @ [(c, p)]\<rparr>
      else if (case Module st of None \<Rightarrow> False | Some m \<Rightarrow> wasmJSMethod m = ''native-wasm'')
              \<and> globalModuleIsFullyLoaded st then
        on_wrapper_then c p
          (if loadArgon2WrapperPromise st = None then load_wrapper p st else st)
      else
        (case mem p of
           None \<Rightarrow> settle c (Rejected RTypeError) st
         | Some m \<Rightarrow>
             st\<lparr>Module := Some
                  \<lparr>wasmBinary = False, wasmJSMethod = ''native-wasm'',
                   asmjsCodeFile = asmFileUrl p, wasmBinaryFile = wasmFileUrl p,
                   wasmMemory_initial = initialMemory m, wasmMemory_maximum = totalMemory,
                   TOTAL_MEMORY = initialMemory m * WASM_PAGE_SIZE, postRun = None\<rparr>,
                xhr_log := xhr_log st @ [wasmFileUrl p],
                xhr_pending := xhr_pending st @ [(c, p)]\<rparr>))"

text \<open>\<open>argon2Hash\<close> (lines 69-167), run for the promise of caller \<open>c\<close>.\<close>

definition argon2Hash :: "host \<Rightarrow> nat \<Rightarrow> params \<Rightarrow> 's state \<Rightarrow> 's state" where
  "argon2Hash h c p st =
     (case select_backend h p of
        Fallback \<Rightarrow>
          st\<lparr>loadScript_log := loadScript_log st @ [(AsmScript, asmFileUrl p)],
             asm_pending := asm_pending st @ [(c, p)]\<rparr>
      | Primary \<Rightarrow> executor c p st)"

text \<open>Lines 140-161: \<open>xhr.onload\<close> for the request of caller \<open>c\<close>.\<close>

definition xhr_onload :: "nat \<Rightarrow> params \<Rightarrow> 's state \<Rightarrow> 's state" where
  "xhr_onload c p st =
     (let st1 = st\<lparr>Module :=
                   map_option (\<lambda>m. m\<lparr>wasmBinary := True, postRun := Some (c, p)\<rparr>) (Module st)\<rparr>;
          st2 = (if loadArgon2WrapperPromise st1 = None then load_wrapper p st1 else st1)
      in on_wrapper_catch c st2)"

text \<open>Lines 162-164: \<open>xhr.onerror\<close>.\<close>

definition xhr_onerror :: "nat \<Rightarrow> params \<Rightarrow> 's state \<Rightarrow> 's state" where
  "xhr_onerror c p st =
     settle c (Rejected (RText (''Error loading wasm '' @ to_text (cacheKey p)))) st"

text \<open>Lines 142-149: \<open>Module.postRun\<close>, called by the engine runtime when it has started.\<close>

definition post_run :: "'s engine \<Rightarrow> 's state \<Rightarrow> 's state" where
  "post_run M st =
     (case Module st of
        None \<Rightarrow> st
      | Some m \<Rightarrow>
          (case postRun m of
             None \<Rightarrow> st
           | Some (c, p) \<Rightarrow> resolve_calc M c p (st\<lparr>globalModuleIsFullyLoaded := True\<rparr>)))"

text \<open>The wrapper promise settles: its callbacks run in the order they were added.\<close>

definition wrapper_fulfilled :: "'s state \<Rightarrow> 's state" where
  "wrapper_fulfilled st =
     (if loadArgon2WrapperPromise st = Some PPending then
        st\<lparr>loadArgon2WrapperPromise := Some PFulfilled,
           calc_timers := calc_timers st @ wrapper_then st,
           wrapper_then := [], wrapper_catch := []\<rparr>
      else st)"

definition wrapper_rejected :: "string \<Rightarrow> 's state \<Rightarrow> 's state" where
  "wrapper_rejected e st =
     (if loadArgon2WrapperPromise st = Some PPending then
        fold (\<lambda>c. settle c (Rejected (RText (wrapper_message e))))
          (map fst (wrapper_then st) @ wrapper_catch st)
          (st\<lparr>loadArgon2WrapperPromise := Some (PRejected e),
              wrapper_then := [], wrapper_catch := []\<rparr>)
      else st)"

section \<open>Events of the host and runs\<close>

text \<open>
  What happens on the page, one event at a time: a caller invokes \<open>argon2.hash\<close>; a
  timer of line 93 or of line 106 fires; the request of line 137 completes or fails; the
  wrapper script or a fallback script loads or fails; the engine runtime calls
  \<open>postRun\<close>. An index selects one of the pending callbacks of its kind; an event that
  has no pending callback changes nothing. \<open>loadScript\<close> (lines 21-38) is kept as
  the pending load and its completion: the callbacks of its promise run after the
  current call has returned, in a worker as well. The glue scripts themselves are not
  part of lib/argon2.js; of what they do, the model keeps the global \<open>Module\<close> that
  the fallback glue defines, the call of \<open>Module.postRun\<close> and the engine functions
  that \<open>calcHash\<close> uses.
\<close>

datatype event =
  Call params
| RetryTimer nat
| CalcTimer nat
| XhrLoad nat
| XhrError nat
| WrapperLoaded
| WrapperFailed string
| AsmLoaded nat
| AsmFailed nat string
| PostRun

definition remove_nth :: "nat \<Rightarrow> 'a list \<Rightarrow> 'a list" where
  "remove_nth k xs = take k xs @ drop (Suc k) xs"

fun step :: "host \<Rightarrow> 's engine \<Rightarrow> event \<Rightarrow> 's state \<Rightarrow> 's state" where
  "step h M (Call p) st =
     argon2Hash h (length (promises st)) p (st\<lparr>promises := promises st @ [Pending]\<rparr>)"
| "step h M (RetryTimer k) st =
     (if k < length (retry_timers st) then
        (case retry_timers st ! k of
           (c, p) \<Rightarrow> argon2Hash h c p (st\<lparr>retry_timers := remove_nth k (retry_timers st)\<rparr>))
      else st)"
| "step h M (CalcTimer k) st =
     (if k < length (calc_timers st) then
        (case calc_timers st ! k of
           (c, p) \<Rightarrow> resolve_calc M c p (st\<lparr>calc_timers := remove_nth k (calc_timers st)\<rparr>))
      else st)"
| "step h M (XhrLoad k) st =
     (if k < length (xhr_pending st) then
        (case xhr_pending st ! k of
           (c, p) \<Rightarrow> xhr_onload c p (st\<lparr>xhr_pending := remove_nth k (xhr_pending st)\<rparr>))
      else st)"
| "step h M (XhrError k) st =
     (if k < length (xhr_pending st) then
        (case xhr_pending st ! k of
           (c, p) \<Rightarrow> xhr_onerror c p (st\<lparr>xhr_pending := remove_nth k (xhr_pending st)\<rparr>))
      else st)"
| "step h M WrapperLoaded st = wrapper_fulfilled st"
| "step h M (WrapperFailed e) st = wrapper_rejected e st"
| "step h M (AsmLoaded k) st =
     (if k < length (asm_pending st) then
        (case asm_pending st ! k of
           (c, p) \<Rightarrow> asm_then M c p (st\<lparr>asm_pending := remove_nth k (asm_pending st)\<rparr>))
      else st)"
| "step h M (AsmFailed k e) st =
     (if k < length (asm_pending st) then
        (case asm_pending st ! k of
           (c, p) \<Rightarrow>
             settle c (Rejected (RError (''Error loading argon2-asm.min.js: '' @ e)))
               (st\<lparr>asm_pending := remove_nth k (asm_pending st)\<rparr>))
      else st)"
| "step h M PostRun st = post_run M st"

fun run :: "host \<Rightarrow> 's engine \<Rightarrow> event list \<Rightarrow> 's state \<Rightarrow> 's state" where
  "run h M [] st = st"
| "run h M (e # es) st = run h M es (step h M e st)"

text \<open>Counters read off the logs.\<close>

definition fetches :: "'s state \<Rightarrow> nat" where
  "fetches st = length (xhr_log st)"

definition script_loads :: "script \<Rightarrow> 's state \<Rightarrow> nat" where
  "script_loads k st = length (filter (\<lambda>e. fst e = k) (loadScript_log st))"


section \<open>A small engine for evaluation\<close>

text \<open>
  An engine whose state is the next free address. \<open>_argon2_hash\<close> returns the given
  status, the message lookup yields the given text, the heap reads as the low byte of
  the address, and \<open>_free\<close> throws when told to.
\<close>

definition toy_engine :: "int \<Rightarrow> string \<Rightarrow> bool \<Rightarrow> nat engine" where
  "toy_engine status msg free_throws =
     \<lparr>allocate = (\<lambda>bs s. (s, s + length bs)),
      argon2_hash = (\<lambda>a s. (Inr status, s)),
      argon2_error_message = (\<lambda>n s. Inr 7),
      Pointer_stringify = (\<lambda>ptr s. if ptr = 7 then msg else ''$argon2d$v=19$''),
      HEAP8 = (\<lambda>s a. of_nat a),
      free = (\<lambda>ptr s. (if free_throws then Some (JObj ''abort'') else None, s))\<rparr>"

text \<open>The same engine with a hashing function that throws.\<close>

definition throwing_engine :: "jsval \<Rightarrow> nat engine" where
  "throwing_engine e = (toy_engine 0 ''OK'' False)\<lparr>argon2_hash := (\<lambda>a s. (Inl e, s))\<rparr>"

text \<open>
  An engine that keeps books: its state holds the next free address, the addresses
  allocated and not yet released, and every byte sequence it was given to store.
  \<open>_argon2_hash\<close> yields the given reply and the heap reads as zero.
  \<open>_free\<close> throws for the addresses listed in \<open>failing\<close> and releases the others.
\<close>

record ledger =
  lg_next :: nat
  lg_live :: "nat list"
  lg_written :: "(nat \<times> byte list) list"

definition empty_ledger :: ledger where
  "empty_ledger = \<lparr>lg_next = 0, lg_live = [], lg_written = []\<rparr>"

definition ledger_engine :: "(jsval + int) \<Rightarrow> nat list \<Rightarrow> ledger engine" where
  "ledger_engine reply failing =
     \<lparr>allocate = (\<lambda>bs l. (lg_next l,
         \<lparr>lg_next = lg_next l + length bs, lg_live = lg_live l @ [lg_next l],
          lg_written = lg_written l @ [(lg_next l, bs)]\<rparr>)),
      argon2_hash = (\<lambda>a l. (reply, l)),
      argon2_error_message = (\<lambda>n l. Inr 7),
      Pointer_stringify = (\<lambda>ptr l. if ptr = 7 then ''Unknown error code'' else ''$argon2d$v=19$''),
      HEAP8 = (\<lambda>l a. 0),
      free = (\<lambda>ptr l. if ptr \<in> set failing then (Some (JObj ''abort''), l)
                        else (None, l\<lparr>lg_live := remove1 ptr (lg_live l)\<rparr>))\<rparr>"

text \<open>Parameters as in the example of the documentation, with a choice of locators.\<close>

definition password :: jsstring where
  "password = [0x70, 0x61, 0x73, 0x73, 0x77, 0x6F, 0x72, 0x64]"

definition somesalt :: jsstring where
  "somesalt = [0x73, 0x6F, 0x6D, 0x65, 0x73, 0x61, 0x6C, 0x74]"

definition example_params :: "string option \<Rightarrow> params" where
  "example_params wasm =
     \<lparr>pass = StrIn password, salt = StrIn somesalt, time = None, mem = Some 1024,
      hashLen = None, parallelism = None, type = None,
      asmFileUrl = Some ''argon2-asm.min.js'', wasmFileUrl = wasm,
      argon2FileUrl = Some ''argon2.min.js'', cacheKey = None\<rparr>"

definition browser :: host where
  "browser = \<lparr>WebAssembly = True\<rparr>"

section \<open>Notions used in the statements\<close>

text \<open>The lowercase hexadecimal encoding of a byte sequence, two digits per byte.\<close>

definition lowercase_hex :: "byte list \<Rightarrow> string" where
  "lowercase_hex bs =
     concat (map (\<lambda>b. [hex_digit (unat b div 16), hex_digit (unat b mod 16)]) bs)"

text \<open>What the guarded call of lines 184-189 yields in a run of \<open>calcHash\<close>.\<close>

definition hash_call :: "'s engine \<Rightarrow> params \<Rightarrow> 's \<Rightarrow> (jsval + int) \<times> 's" where
  "hash_call M p s = argon2_hash M (fst (calc_alloc M p s)) (snd (snd (calc_alloc M p s)))"

text \<open>
  The interface of the engine: the message lookup maps every status code to a text that
  is not empty.
\<close>

definition lookup_total :: "'s engine \<Rightarrow> bool" where
  "lookup_total M =
     (\<forall>n t. \<exists>ptr. argon2_error_message M n t = Inr ptr \<and> Pointer_stringify M ptr t \<noteq> [])"

text \<open>
  Accounting on the engine itself. \<open>buffers\<close>: the four addresses that a run hands to
  the hashing function. \<open>allocate_all\<close>: the engine's allocator applied to a list of
  byte sequences in turn. \<open>release_all\<close>: the engine's \<open>_free\<close> applied to a list
  of addresses in turn; \<open>releases_ok\<close>: none of these applications throws.
\<close>

definition buffers :: "'s engine \<Rightarrow> params \<Rightarrow> 's \<Rightarrow> nat list" where
  "buffers M p s =
     (let a = fst (calc_alloc M p s) in [a_pwd a, a_salt a, a_hash a, a_encoded a])"

fun allocate_all :: "'s engine \<Rightarrow> byte list list \<Rightarrow> 's \<Rightarrow> nat list \<times> 's" where
  "allocate_all M [] s = ([], s)"
| "allocate_all M (bs # bss) s =
     (let (a, s') = allocate M bs s; (as, s'') = allocate_all M bss s' in (a # as, s''))"

fun release_all :: "'s engine \<Rightarrow> nat list \<Rightarrow> 's \<Rightarrow> 's" where
  "release_all M [] s = s"
| "release_all M (a # as) s = release_all M as (snd (free M a s))"

fun releases_ok :: "'s engine \<Rightarrow> nat list \<Rightarrow> 's \<Rightarrow> bool" where
  "releases_ok M [] s = True"
| "releases_ok M (a # as) s = (fst (free M a s) = None \<and> releases_ok M as (snd (free M a s)))"

text \<open>A two-character password with one character outside the one-byte range.\<close>

definition accented :: jsstring where
  "accented = [0x70, 0xE9]"

text \<open>
  Invariants of the loader. \<open>native\<close>: the engine object is the one of line 127.
  \<open>counted\<close>: the log holds one fetch exactly when that object exists and one wrapper
  script load exactly when the wrapper promise exists; while the object of line 127 does
  not exist, no request is pending, the flag is unset and no \<open>postRun\<close> is installed.
  \<open>primary_only\<close>: no fallback load is pending and the engine object, if any, is the
  one of line 127. \<open>retry_primary\<close>:
  every pending retry belongs to a call that selects the primary backend.
  \<open>flag_guarded\<close>: callbacks that will run \<open>calcHash\<close> on the primary path exist only when
  the loaded flag is set, the flag implies the engine object, and every logged run of
  \<open>calcHash\<close> on the primary path saw both. \<open>stranded\<close>: the engine object exists,
  the flag is not set, nothing is pending that could set it, and caller \<open>c\<close> is
  pending with no callback that could settle its promise.
\<close>

definition native :: "'s state \<Rightarrow> bool" where
  "native st = (case Module st of None \<Rightarrow> False | Some m \<Rightarrow> wasmJSMethod m = ''native-wasm'')"

definition counted :: "'s state \<Rightarrow> bool" where
  "counted st \<longleftrightarrow>
     fetches st = (if native st then 1 else 0)
     \<and> script_loads WrapperScript st = (if loadArgon2WrapperPromise st = None then 0 else 1)
     \<and> (\<not> native st \<longrightarrow>
          xhr_pending st = [] \<and> \<not> globalModuleIsFullyLoaded st
          \<and> (case Module st of None \<Rightarrow> True | Some m \<Rightarrow> postRun m = None))"


definition retry_primary :: "host \<Rightarrow> 's state \<Rightarrow> bool" where
  "retry_primary h st \<longleftrightarrow> list_all (\<lambda>cp. select_backend h (snd cp) = Primary) (retry_timers st)"

definition flag_guarded :: "'s state \<Rightarrow> bool" where
  "flag_guarded st \<longleftrightarrow>
     (calc_timers st \<noteq> [] \<or> wrapper_then st \<noteq> [] \<longrightarrow> globalModuleIsFullyLoaded st)
     \<and> (globalModuleIsFullyLoaded st \<longrightarrow> Module st \<noteq> None)
     \<and> list_all (\<lambda>e. ce_backend e = Primary \<longrightarrow> ce_loaded e \<and> ce_module e) (calc_log st)"

definition stranded :: "host \<Rightarrow> nat \<Rightarrow> 's state \<Rightarrow> bool" where
  "stranded h c st \<longleftrightarrow>
     Module st \<noteq> None \<and> \<not> globalModuleIsFullyLoaded st \<and> xhr_pending st = []
     \<and> (case Module st of None \<Rightarrow> True | Some m \<Rightarrow> postRun m = None)
     \<and> calc_timers st = [] \<and> wrapper_then st = [] \<and> wrapper_catch st = []
     \<and> c < length (promises st) \<and> promises st ! c = Pending
     \<and> list_all (\<lambda>cp. fst cp \<noteq> c) (asm_pending st)
     \<and> list_all (\<lambda>cp. fst cp = c \<longrightarrow> select_backend h (snd cp) = Primary) (retry_timers st)"

section \<open>Memory sizing\<close>

lemma totalMemory_value: "totalMemory = 32767"
  by (simp add: totalMemory_def GB_def MB_def KB_def WASM_PAGE_SIZE_def)

lemma ceil_div_upper: "0 < b \<Longrightarrow> a \<le> ceil_div a b * b"
proof -
  assume b: "0 < b"
  have "a + b - 1 = (a + b - 1) div b * b + (a + b - 1) mod b" by simp
  moreover have "(a + b - 1) mod b \<le> b - 1" using b
    by (metis Suc_pred' less_Suc_eq_le mod_less_divisor)
  ultimately show ?thesis unfolding ceil_div_def using b by linarith
qed

lemma ceil_div_lower: "0 < b \<Longrightarrow> 0 < a \<Longrightarrow> (ceil_div a b - 1) * b < a"
proof -
  assume b: "0 < b" and a: "0 < a"
  have "(a + b - 1) div b * b \<le> a + b - 1" by simp
  then have "(a + b - 1) div b * b - b < a" using a b by linarith
  then show ?thesis by (simp add: ceil_div_def diff_mult_distrib)
qed

text \<open>
  C7. On the first initialisation of the primary backend the memory is created with
  \<open>initialMemory m\<close> pages of 64 KiB, where \<open>initialMemory m\<close> is
  \<open>min (max (ceil (m * 1024 / 65536)) 256 + 256) 32767\<close> and 32767 pages are 2 GiB minus
  64 KiB. The size never exceeds that ceiling, and whenever the ceiling does not bind it
  lies at least 256 pages above the requested \<open>m\<close> KiB.
\<close>

theorem initial_memory_pages:
  "totalMemory = 32767
   \<and> totalMemory * WASM_PAGE_SIZE = 2 * 1024 * 1024 * 1024 - 64 * 1024
   \<and> initialMemory m = min (max (ceil_div (m * 1024) 65536) 256 + 256) 32767
   \<and> m * 1024 \<le> ceil_div (m * 1024) 65536 * 65536
   \<and> (0 < m \<longrightarrow> (ceil_div (m * 1024) 65536 - 1) * 65536 < m * 1024)
   \<and> initialMemory m \<le> totalMemory
   \<and> (max (ceil_div (m * 1024) 65536) 256 + 256 \<le> totalMemory \<longrightarrow>
        m * 1024 + 256 * WASM_PAGE_SIZE \<le> initialMemory m * WASM_PAGE_SIZE)
   \<and> (Module st = None \<and> mem p = Some m \<longrightarrow>
        (\<exists>md. Module (executor c p st) = Some md
           \<and> wasmMemory_initial md = initialMemory m
           \<and> wasmMemory_maximum md = totalMemory
           \<and> TOTAL_MEMORY md = initialMemory m * WASM_PAGE_SIZE))"
proof -
  have up: "m * 1024 \<le> ceil_div (m * 1024) 65536 * 65536"
    by (rule ceil_div_upper) simp
  have lo: "0 < m \<longrightarrow> (ceil_div (m * 1024) 65536 - 1) * 65536 < m * 1024"
    by (rule impI, rule ceil_div_lower) simp_all
  have im: "initialMemory m = min (max (ceil_div (m * 1024) 65536) 256 + 256) 32767"
    by (simp add: initialMemory_def totalMemory_value WASM_PAGE_SIZE_def)
  have margin: "max (ceil_div (m * 1024) 65536) 256 + 256 \<le> totalMemory \<longrightarrow>
        m * 1024 + 256 * WASM_PAGE_SIZE \<le> initialMemory m * WASM_PAGE_SIZE"
    using up by (simp add: im totalMemory_value WASM_PAGE_SIZE_def max_def split: if_splits)
  have ex: "Module st = None \<and> mem p = Some m \<longrightarrow>
        (\<exists>md. Module (executor c p st) = Some md
           \<and> wasmMemory_initial md = initialMemory m
           \<and> wasmMemory_maximum md = totalMemory
           \<and> TOTAL_MEMORY md = initialMemory m * WASM_PAGE_SIZE)"
    by (simp add: executor_def)
  show ?thesis
    using up lo im margin ex
    by (simp add: totalMemory_value WASM_PAGE_SIZE_def)
qed

theorem initial_memory_pages_witness:
  "initialMemory 1024 = 512 \<and> initialMemory 4000000 = 32767
   \<and> 1024 * 1024 + 256 * WASM_PAGE_SIZE \<le> initialMemory 1024 * WASM_PAGE_SIZE
   \<and> (\<exists>md. Module (executor 0 (example_params (Some ''argon2.wasm'')) (init (0::nat))) = Some md
           \<and> wasmMemory_initial md = initialMemory 1024)"
proof -
  note T = initial_memory_pages [where st = "init (0::nat)"
      and p = "example_params (Some ''argon2.wasm'')" and c = 0]
  have c1: "ceil_div (1024 * 1024) 65536 = 16" by (simp add: ceil_div_def)
  have c2: "ceil_div (4000000 * 1024) 65536 = 62500" by (simp add: ceil_div_def)
  have m: "Module (init (0::nat)) = None \<and> mem (example_params (Some ''argon2.wasm'')) = Some 1024"
    by (simp add: init_def example_params_def)
  have a: "initialMemory 1024 = 512"
    using T [of 1024, THEN conjunct2, THEN conjunct2, THEN conjunct1] c1 by simp
  have b: "initialMemory 4000000 = 32767"
    using T [of 4000000, THEN conjunct2, THEN conjunct2, THEN conjunct1] c2 by simp
  have c: "1024 * 1024 + 256 * WASM_PAGE_SIZE \<le> initialMemory 1024 * WASM_PAGE_SIZE"
    using T [of 1024, THEN conjunct2, THEN conjunct2, THEN conjunct2, THEN conjunct2,
        THEN conjunct2, THEN conjunct2, THEN conjunct1] c1
    by (simp add: totalMemory_value)
  have d: "\<exists>md. Module (executor 0 (example_params (Some ''argon2.wasm'')) (init (0::nat))) = Some md
           \<and> wasmMemory_initial md = initialMemory 1024"
    using T [of 1024, THEN conjunct2, THEN conjunct2, THEN conjunct2, THEN conjunct2,
        THEN conjunct2, THEN conjunct2, THEN conjunct2] m
    by blast
  show ?thesis using a b c d by blast
qed

section \<open>Backend selection\<close>

lemma truthy_url_iff: "truthy_url u \<longleftrightarrow> (\<exists>s. u = Some s \<and> s \<noteq> [])"
  by (cases u) (simp_all add: truthy_url_def)

text \<open>
  C8. A call selects the fallback backend exactly when the host has no WebAssembly or one
  of the two locators of the primary backend (\<open>wasmFileUrl\<close>, \<open>argon2FileUrl\<close>) is
  absent, that is undefined or empty; otherwise it selects the primary backend. The
  decision is a total function of the capability and these two locators: no other field
  of the parameters changes it, and \<open>argon2Hash\<close> branches on nothing else.
\<close>

theorem select_backend_rule:
  "(select_backend h p = Fallback \<longleftrightarrow>
      \<not> WebAssembly h \<or> \<not> truthy_url (wasmFileUrl p) \<or> \<not> truthy_url (argon2FileUrl p))
   \<and> (select_backend h p = Primary \<longleftrightarrow>
      WebAssembly h \<and> truthy_url (wasmFileUrl p) \<and> truthy_url (argon2FileUrl p))
   \<and> (wasmFileUrl p = None \<or> argon2FileUrl p = None \<longrightarrow> select_backend h p = Fallback)
   \<and> (truthy_url (wasmFileUrl p) \<longleftrightarrow> (\<exists>s. wasmFileUrl p = Some s \<and> s \<noteq> []))
   \<and> (truthy_url (argon2FileUrl p) \<longleftrightarrow> (\<exists>s. argon2FileUrl p = Some s \<and> s \<noteq> []))
   \<and> select_backend h
        (p\<lparr>pass := pw, salt := sa, time := t, mem := m, hashLen := hl, parallelism := par,
           type := ty, asmFileUrl := asm, cacheKey := ck\<rparr>) = select_backend h p
   \<and> (select_backend h p = Fallback \<longrightarrow>
        argon2Hash h c p st =
          st\<lparr>loadScript_log := loadScript_log st @ [(AsmScript, asmFileUrl p)],
             asm_pending := asm_pending st @ [(c, p)]\<rparr>)
   \<and> (select_backend h p = Primary \<longrightarrow> argon2Hash h c p st = executor c p st)"
  by (simp add: select_backend_def argon2Hash_def truthy_url_iff)

theorem select_backend_rule_witness:
  "select_backend browser (example_params None) = Fallback
   \<and> select_backend browser (example_params (Some ''argon2.wasm'')) = Primary
   \<and> select_backend \<lparr>WebAssembly = False\<rparr> (example_params (Some ''argon2.wasm'')) = Fallback
   \<and> argon2Hash browser 0 (example_params None) (init (0::nat)) =
        (init 0)\<lparr>loadScript_log := [(AsmScript, Some ''argon2-asm.min.js'')],
                  asm_pending := [(0, example_params None)]\<rparr>"
proof -
  note T = select_backend_rule [where c = 0 and st = "init (0::nat)"]
  have a: "select_backend browser (example_params None) = Fallback"
    using T [of browser "example_params None", THEN conjunct1]
    by (simp add: example_params_def truthy_url_def)
  have b: "select_backend browser (example_params (Some ''argon2.wasm'')) = Primary"
    using T [of browser "example_params (Some ''argon2.wasm'')", THEN conjunct2, THEN conjunct1]
    by (simp add: example_params_def truthy_url_def browser_def)
  have c: "select_backend \<lparr>WebAssembly = False\<rparr> (example_params (Some ''argon2.wasm'')) = Fallback"
    using T [of "\<lparr>WebAssembly = False\<rparr>" "example_params (Some ''argon2.wasm'')", THEN conjunct1]
    by simp
  have d: "argon2Hash browser 0 (example_params None) (init (0::nat)) =
        (init 0)\<lparr>loadScript_log := [(AsmScript, Some ''argon2-asm.min.js'')],
                  asm_pending := [(0, example_params None)]\<rparr>"
    using T [of browser "example_params None", THEN conjunct2, THEN conjunct2, THEN conjunct2,
        THEN conjunct2, THEN conjunct2, THEN conjunct2, THEN conjunct1] a
    by (simp add: init_def example_params_def)
  show ?thesis using a b c d by blast
qed

section \<open>The trace of calcHash\<close>

lemma calcHash_trace:
  "fst (snd (calcHash M p s)) =
     fst (snd (calc_alloc M p s)) @ [Invoke (fst (calc_alloc M p s))] @
     fst (free_all M
       [a_pwd (fst (calc_alloc M p s)), a_salt (fst (calc_alloc M p s)),
        a_hash (fst (calc_alloc M p s)), a_encoded (fst (calc_alloc M p s))]
       (snd (hash_call M p s)))"
  by (simp add: calcHash_def hash_call_def Let_def split_beta)

lemma calc_alloc_trace:
  "fst (snd (calc_alloc M p s)) =
     [Alloc (a_pwd (fst (calc_alloc M p s))) (length (to_array (pass p))),
      Alloc (a_salt (fst (calc_alloc M p s))) (length (to_array (salt p))),
      Alloc (a_hash (fst (calc_alloc M p s))) (a_hashlen (fst (calc_alloc M p s))),
      Alloc (a_encoded (fst (calc_alloc M p s))) 512]"
  by (simp add: calc_alloc_def Let_def split_beta)

lemma invoked_append: "invoked (xs @ ys) = invoked xs @ invoked ys"
  by (induction xs rule: invoked.induct) simp_all

lemma invoked_free_all: "invoked (fst (free_all M ptrs s)) = []"
  by (induction ptrs arbitrary: s) (simp_all add: split_beta split: option.splits)

lemma calcHash_invoked: "invoked (fst (snd (calcHash M p s))) = [fst (calc_alloc M p s)]"
  by (simp add: calcHash_trace calc_alloc_trace invoked_append invoked_free_all
      del: free_all.simps)

lemma calc_alloc_lengths:
  "a_pwdlen (fst (calc_alloc M p s)) = input_length (pass p)"
  "a_saltlen (fst (calc_alloc M p s)) = input_length (salt p)"
  "a_hashlen (fst (calc_alloc M p s)) = or_default (hashLen p) 24"
  by (simp_all add: calc_alloc_def Let_def split_beta)

section \<open>Defaults of calcHash\<close>

text \<open>
  C9. The hashing function is invoked once, with time cost 1, memory cost 1024 KiB,
  parallelism 1, hash length 24 and variant Argon2d where the field is absent, with the
  supplied value where a field is given, and with the version tag 0x13. A supplied value
  is a value of the parameter ranges, which exclude 0 for the four numeric costs.
\<close>

theorem calcHash_defaults:
  assumes "time p \<noteq> Some 0" and "mem p \<noteq> Some 0" and "parallelism p \<noteq> Some 0"
    and "hashLen p \<noteq> Some 0"
  shows "\<exists>a. invoked (fst (snd (calcHash M p s))) = [a]
    \<and> a_tCost a = (case time p of None \<Rightarrow> 1 | Some v \<Rightarrow> v)
    \<and> a_mCost a = (case mem p of None \<Rightarrow> 1024 | Some v \<Rightarrow> v)
    \<and> a_parallelism a = (case parallelism p of None \<Rightarrow> 1 | Some v \<Rightarrow> v)
    \<and> a_hashlen a = (case hashLen p of None \<Rightarrow> 24 | Some v \<Rightarrow> v)
    \<and> a_argon2Type a = (case type p of None \<Rightarrow> Argon2d | Some v \<Rightarrow> v)
    \<and> a_version a = 0x13"
proof -
  let ?a = "fst (calc_alloc M p s)"
  have "a_tCost ?a = (case time p of None \<Rightarrow> 1 | Some v \<Rightarrow> v)"
    using assms(1) by (simp add: calc_alloc_def Let_def split_beta or_default_def split: option.splits)
  moreover have "a_mCost ?a = (case mem p of None \<Rightarrow> 1024 | Some v \<Rightarrow> v)"
    using assms(2) by (simp add: calc_alloc_def Let_def split_beta or_default_def split: option.splits)
  moreover have "a_parallelism ?a = (case parallelism p of None \<Rightarrow> 1 | Some v \<Rightarrow> v)"
    using assms(3) by (simp add: calc_alloc_def Let_def split_beta or_default_def split: option.splits)
  moreover have "a_hashlen ?a = (case hashLen p of None \<Rightarrow> 24 | Some v \<Rightarrow> v)"
    using assms(4) by (simp add: calc_alloc_def Let_def split_beta or_default_def split: option.splits)
  moreover have "a_argon2Type ?a = (case type p of None \<Rightarrow> Argon2d | Some v \<Rightarrow> v)"
    by (simp add: calc_alloc_def Let_def split_beta or_default_def Argon2d_def split: option.splits)
  moreover have "a_version ?a = 0x13"
    by (simp add: calc_alloc_def Let_def split_beta)
  ultimately show ?thesis
    using calcHash_invoked [of M p s] by blast
qed

theorem calcHash_defaults_witness:
  "invoked (fst (snd (calcHash (toy_engine 0 ''OK'' False) (example_params None) 0))) =
     [\<lparr>a_tCost = 1, a_mCost = 1024, a_parallelism = 1, a_pwd = 0, a_pwdlen = 8, a_salt = 9,
       a_saltlen = 8, a_hash = 18, a_hashlen = 24, a_encoded = 42, a_encodedlen = 512,
       a_argon2Type = 0, a_version = 19\<rparr>]
   \<and> (\<exists>a. invoked (fst (snd (calcHash (toy_engine 0 ''OK'' False)
             ((example_params None)\<lparr>time := Some 3, hashLen := Some 32, type := Some Argon2i\<rparr>) 0))) = [a]
        \<and> a_tCost a = 3 \<and> a_mCost a = 1024 \<and> a_hashlen a = 32 \<and> a_argon2Type a = Argon2i)"
proof -
  let ?M = "toy_engine 0 ''OK'' False"
  let ?q = "(example_params None)\<lparr>time := Some 3, hashLen := Some 32, type := Some Argon2i\<rparr>"
  have len: "length (to_array (StrIn password)) = 9" "length (to_array (StrIn somesalt)) = 9"
    by (simp_all add: to_array_def intArrayFromString_def password_def somesalt_def
        utf8_char_def surrogate_def)
  have lenp: "length password = 8" "length somesalt = 8"
    by (simp_all add: password_def somesalt_def)
  have "\<exists>a. invoked (fst (snd (calcHash ?M (example_params None) 0))) = [a]
    \<and> a_tCost a = 1 \<and> a_mCost a = 1024 \<and> a_parallelism a = 1 \<and> a_hashlen a = 24
    \<and> a_argon2Type a = Argon2d \<and> a_version a = 0x13"
    using calcHash_defaults [of "example_params None" ?M 0]
    by (simp add: example_params_def)
  moreover have "invoked (fst (snd (calcHash ?M (example_params None) 0))) =
     [\<lparr>a_tCost = 1, a_mCost = 1024, a_parallelism = 1, a_pwd = 0, a_pwdlen = 8, a_salt = 9,
       a_saltlen = 8, a_hash = 18, a_hashlen = 24, a_encoded = 42, a_encodedlen = 512,
       a_argon2Type = 0, a_version = 19\<rparr>]"
    by (simp add: calcHash_invoked calc_alloc_def Let_def split_beta or_default_def
        example_params_def toy_engine_def allocateArray_def len lenp Argon2d_def)
  moreover have "\<exists>a. invoked (fst (snd (calcHash ?M ?q 0))) = [a]
        \<and> a_tCost a = 3 \<and> a_mCost a = 1024 \<and> a_hashlen a = 32 \<and> a_argon2Type a = Argon2i"
    using calcHash_defaults [of ?q ?M 0]
    by (auto simp add: example_params_def)
  ultimately show ?thesis by blast
qed

section \<open>String lengths\<close>

lemma utf8_char_length:
  "length (utf8_char u) =
     (if u \<le> 0x7F then 1 else if u \<le> 0x7FF then 2 else if u \<le> 0xFFFF then 3 else 4)"
  by (simp add: utf8_char_def)

lemma utf8_encode_length_ge: "length us \<le> length (utf8_encode us)"
  by (induction us rule: utf8_encode.induct) (auto simp: utf8_char_length)

lemma utf8_encode_length_gt:
  "\<exists>u\<in>set us. 0x80 \<le> u \<Longrightarrow> length us < length (utf8_encode us)"
proof (induction us rule: utf8_encode.induct)
  case 1
  then show ?case by simp
next
  case (2 u)
  then show ?case by (simp add: utf8_char_length)
next
  case (3 u v vs)
  have ge1: "length (v # vs) \<le> length (utf8_encode (v # vs))"
    by (rule utf8_encode_length_ge)
  have ge2: "length vs \<le> length (utf8_encode vs)"
    by (rule utf8_encode_length_ge)
  show ?case
  proof (cases "surrogate u")
    case True
    then show ?thesis using ge2 by (simp add: utf8_char_length)
  next
    case ns: False
    show ?thesis
    proof (cases "u < 0x80")
      case True
      with 3 ns show ?thesis by (auto simp: utf8_char_length)
    next
      case False
      then show ?thesis
        using ge1 ns by (simp add: utf8_char_length)
    qed
  qed
qed

lemma utf8_encode_ascii: "\<forall>u\<in>set us. u < 0x80 \<Longrightarrow> utf8_encode us = us"
  by (induction us rule: utf8_encode.induct) (auto simp: utf8_char_def surrogate_def)

lemma utf8_encode_length_eq:
  "length (utf8_encode us) = length us \<longleftrightarrow> (\<forall>u\<in>set us. u < 0x80)"
proof
  assume eq: "length (utf8_encode us) = length us"
  show "\<forall>u\<in>set us. u < 0x80"
  proof (rule ccontr)
    assume "\<not> (\<forall>u\<in>set us. u < 0x80)"
    then have "\<exists>u\<in>set us. 0x80 \<le> u" by (auto simp: not_less)
    from utf8_encode_length_gt [OF this] eq show False by simp
  qed
next
  assume "\<forall>u\<in>set us. u < 0x80"
  then show "length (utf8_encode us) = length us" by (simp add: utf8_encode_ascii)
qed

lemma intArrayFromString_terminator:
  "intArrayFromString s False = intArrayFromString s True @ [0]"
  by (simp add: intArrayFromString_def)

lemma intArrayFromString_length_ge: "length s \<le> length (intArrayFromString s True)"
  using utf8_encode_length_ge [of "map unat s"] by (simp add: intArrayFromString_def)

lemma intArrayFromString_length_eq:
  "length (intArrayFromString s True) = length s \<longleftrightarrow> (\<forall>u\<in>set s. u < 0x80)"
proof -
  have "(\<forall>n\<in>set (map unat s). n < 0x80) \<longleftrightarrow> (\<forall>u\<in>set s. u < 0x80)"
    by (simp add: word_less_nat_alt)
  then show ?thesis
    using utf8_encode_length_eq [of "map unat s"] by (simp add: intArrayFromString_def)
qed

lemma calc_alloc_pwd:
  "a_pwd (fst (calc_alloc M p st)) = fst (allocate M (to_array (pass p)) st)"
  by (simp add: calc_alloc_def allocateArray_def Let_def split_beta)

lemma calc_alloc_salt:
  "a_salt (fst (calc_alloc M p st)) =
     fst (allocate M (to_array (salt p)) (snd (allocate M (to_array (pass p)) st)))"
  by (simp add: calc_alloc_def allocateArray_def Let_def split_beta)

text \<open>
  C10. For a password given as a string, the buffer handed to the hashing function is the
  one that the engine's allocator returned for the encoded string: the UTF-8 bytes of the
  text followed by the terminator. The length handed over with it is the number of UTF-16
  code units of the string. That number is never larger than the number of bytes of the
  encoded text, and the two are equal exactly when every code unit is below 0x80. The same
  holds for a salt given as a string, whose buffer is allocated next.
\<close>

theorem string_length_mismatch:
  "(\<forall>s. pass p = StrIn s \<longrightarrow>
      (\<exists>a. invoked (fst (snd (calcHash M p st))) = [a]
         \<and> a_pwd a = fst (allocate M (intArrayFromString s True @ [0]) st)
         \<and> a_pwdlen a = length s
         \<and> a_pwdlen a \<le> length (intArrayFromString s True)
         \<and> (a_pwdlen a = length (intArrayFromString s True) \<longleftrightarrow> (\<forall>u\<in>set s. u < 0x80))))
   \<and> (\<forall>s. salt p = StrIn s \<longrightarrow>
      (\<exists>a. invoked (fst (snd (calcHash M p st))) = [a]
         \<and> a_salt a = fst (allocate M (intArrayFromString s True @ [0])
                            (snd (allocateArray M (pass p) st)))
         \<and> a_saltlen a = length s
         \<and> a_saltlen a \<le> length (intArrayFromString s True)
         \<and> (a_saltlen a = length (intArrayFromString s True) \<longleftrightarrow> (\<forall>u\<in>set s. u < 0x80))))"
proof -
  let ?a = "fst (calc_alloc M p st)"
  have inv: "invoked (fst (snd (calcHash M p st))) = [?a]" by (rule calcHash_invoked)
  have P: "\<forall>s. pass p = StrIn s \<longrightarrow>
         a_pwd ?a = fst (allocate M (intArrayFromString s True @ [0]) st)
         \<and> a_pwdlen ?a = length s
         \<and> a_pwdlen ?a \<le> length (intArrayFromString s True)
         \<and> (a_pwdlen ?a = length (intArrayFromString s True) \<longleftrightarrow> (\<forall>u\<in>set s. u < 0x80))"
  proof (intro allI impI)
    fix s assume s: "pass p = StrIn s"
    have l: "a_pwdlen ?a = length s" by (simp add: calc_alloc_lengths s)
    have b: "a_pwd ?a = fst (allocate M (intArrayFromString s True @ [0]) st)"
      by (simp add: calc_alloc_pwd to_array_def s intArrayFromString_terminator)
    show "a_pwd ?a = fst (allocate M (intArrayFromString s True @ [0]) st)
         \<and> a_pwdlen ?a = length s
         \<and> a_pwdlen ?a \<le> length (intArrayFromString s True)
         \<and> (a_pwdlen ?a = length (intArrayFromString s True) \<longleftrightarrow> (\<forall>u\<in>set s. u < 0x80))"
      using l b intArrayFromString_length_ge [of s] intArrayFromString_length_eq [of s]
      by auto
  qed
  have S: "\<forall>s. salt p = StrIn s \<longrightarrow>
         a_salt ?a = fst (allocate M (intArrayFromString s True @ [0])
                            (snd (allocateArray M (pass p) st)))
         \<and> a_saltlen ?a = length s
         \<and> a_saltlen ?a \<le> length (intArrayFromString s True)
         \<and> (a_saltlen ?a = length (intArrayFromString s True) \<longleftrightarrow> (\<forall>u\<in>set s. u < 0x80))"
  proof (intro allI impI)
    fix s assume s: "salt p = StrIn s"
    have l: "a_saltlen ?a = length s" by (simp add: calc_alloc_lengths s)
    have b: "a_salt ?a = fst (allocate M (intArrayFromString s True @ [0])
                            (snd (allocateArray M (pass p) st)))"
      by (simp add: calc_alloc_salt to_array_def s intArrayFromString_terminator
          allocateArray_def)
    show "a_salt ?a = fst (allocate M (intArrayFromString s True @ [0])
                            (snd (allocateArray M (pass p) st)))
         \<and> a_saltlen ?a = length s
         \<and> a_saltlen ?a \<le> length (intArrayFromString s True)
         \<and> (a_saltlen ?a = length (intArrayFromString s True) \<longleftrightarrow> (\<forall>u\<in>set s. u < 0x80))"
      using l b intArrayFromString_length_ge [of s] intArrayFromString_length_eq [of s]
      by auto
  qed
  show ?thesis using P S inv by blast
qed

theorem string_length_mismatch_witness:
  "\<exists>a. invoked (fst (snd (calcHash (ledger_engine (Inr 0) [])
             ((example_params None)\<lparr>pass := StrIn accented\<rparr>) empty_ledger))) = [a]
      \<and> a_pwd a = 0 \<and> a_pwdlen a = 2
      \<and> intArrayFromString accented True = [0x70, 0xC3, 0xA9]
      \<and> a_pwdlen a < length (intArrayFromString accented True)
      \<and> hd (lg_written (snd (snd (calcHash (ledger_engine (Inr 0) [])
             ((example_params None)\<lparr>pass := StrIn accented\<rparr>) empty_ledger)))) =
          (0, [0x70, 0xC3, 0xA9, 0])"
proof -
  let ?M = "ledger_engine (Inr 0) []"
  let ?p = "(example_params None)\<lparr>pass := StrIn accented\<rparr>"
  have l: "length accented = 2" by (simp add: accented_def)
  have b: "intArrayFromString accented True = [0x70, 0xC3, 0xA9]"
    by (simp add: accented_def intArrayFromString_def utf8_char_def surrogate_def)
  have n: "\<not> (\<forall>u\<in>set accented. u < 0x80)" by (simp add: accented_def)
  have al: "fst (allocate ?M ([0x70, 0xC3, 0xA9] @ [0]) empty_ledger) = 0"
    by (simp add: ledger_engine_def empty_ledger_def)
  have w: "hd (lg_written (snd (snd (calcHash ?M ?p empty_ledger)))) = (0, [0x70, 0xC3, 0xA9, 0])"
    by (simp add: calcHash_def calc_alloc_def allocateArray_def to_array_def Let_def split_beta
        intArrayFromString_terminator b ledger_engine_def empty_ledger_def example_params_def)
  have "\<exists>a. invoked (fst (snd (calcHash ?M ?p empty_ledger))) = [a]
      \<and> a_pwd a = 0 \<and> a_pwdlen a = 2 \<and> a_pwdlen a < length (intArrayFromString accented True)"
    using string_length_mismatch [of ?p ?M empty_ledger, THEN conjunct1, rule_format, of accented]
      n al
    by (auto simp add: l b example_params_def)
  then show ?thesis using b w by blast
qed

section \<open>Reading the hash\<close>

lemma and_255_sint: "(255::int) AND sint (w::byte) = uint w"
proof -
  have "(255::int) = mask 8" by (simp add: mask_eq_exp_minus_1)
  then have "(255::int) AND sint w = take_bit 8 (sint w)"
    by (simp add: take_bit_eq_mask and.commute)
  also have "\<dots> = take_bit 8 (uint w)"
    by (simp add: sint_uint take_bit_signed_take_bit)
  also have "\<dots> = uint w"
    using uint_lt2p [of w] by (simp add: take_bit_int_eq_self)
  finally show ?thesis .
qed

lemma toString16_small: "n < 16 \<Longrightarrow> toString16 n = [hex_digit n]"
  by (simp add: toString16.simps)

lemma toString16_two:
  "16 \<le> n \<Longrightarrow> n < 256 \<Longrightarrow> toString16 n = [hex_digit (n div 16), hex_digit (n mod 16)]"
  by (subst toString16.simps) (simp add: toString16_small less_mult_imp_div_less)

lemma hex_digit_0: "hex_digit 0 = CHR ''0''"
  by (simp add: hex_digit_def)

lemma byte_hex_sint:
  "byte_hex (sint (w::byte)) = [hex_digit (unat w div 16), hex_digit (unat w mod 16)]"
proof -
  have n: "nat (255 AND sint w) = unat w" by (simp add: and_255_sint)
  have lt: "unat w < 256" using unsigned_less [of w, where ?'a = nat] by simp
  show ?thesis
  proof (cases "unat w < 16")
    case True
    then show ?thesis
      by (simp add: byte_hex_def n toString16_small slice_last2_def hex_digit_0)
  next
    case False
    then show ?thesis
      using lt by (simp add: byte_hex_def n toString16_two slice_last2_def)
  qed
qed

lemma read_hash_gen:
  "length hashArr = n \<Longrightarrow> i \<le> n \<Longrightarrow>
   read_hash M s h n i hashArr hashStr =
     (take i hashArr @ map (\<lambda>j. HEAP8 M s (h + j)) [i..<n],
      hashStr @ lowercase_hex (map (\<lambda>j. HEAP8 M s (h + j)) [i..<n]))"
proof (induction M s h n i hashArr hashStr rule: read_hash.induct)
  case (1 M s hsh hashlen i hashArr hashStr)
  show ?case
  proof (cases "i < hashlen")
    case True
    let ?b = "HEAP8 M s (hsh + i)"
    have ih: "read_hash M s hsh hashlen (i + 1) (hashArr[i := word_of_int (sint ?b)])
                (hashStr @ byte_hex (sint ?b)) =
              (take (i + 1) (hashArr[i := word_of_int (sint ?b)]) @
                 map (\<lambda>j. HEAP8 M s (hsh + j)) [i + 1..<hashlen],
               (hashStr @ byte_hex (sint ?b)) @
                 lowercase_hex (map (\<lambda>j. HEAP8 M s (hsh + j)) [i + 1..<hashlen]))"
      using "1.IH" [OF True refl] "1.prems" True by simp
    have tk: "take (i + 1) (hashArr[i := word_of_int (sint ?b)]) = take i hashArr @ [?b]"
      using True "1.prems" by (simp add: take_Suc_conv_app_nth)
    have up: "[i..<hashlen] = i # [i + 1..<hashlen]"
      using True by (simp add: upt_conv_Cons)
    have "read_hash M s hsh hashlen i hashArr hashStr =
            read_hash M s hsh hashlen (i + 1) (hashArr[i := word_of_int (sint ?b)])
              (hashStr @ byte_hex (sint ?b))"
      by (subst read_hash.simps) (simp add: True Let_def)
    then show ?thesis
      by (simp only: ih tk up) (simp add: lowercase_hex_def byte_hex_sint)
  next
    case False
    with "1.prems" have "i = hashlen" by simp
    then show ?thesis
      using "1.prems" by (subst read_hash.simps) (simp add: lowercase_hex_def)
  qed
qed

lemma read_hash_result:
  "read_hash M s h n 0 (replicate n 0) [] =
     (map (\<lambda>j. HEAP8 M s (h + j)) [0..<n],
      lowercase_hex (map (\<lambda>j. HEAP8 M s (h + j)) [0..<n]))"
  by (simp add: read_hash_gen)

lemma length_lowercase_hex: "length (lowercase_hex bs) = 2 * length bs"
  by (induction bs) (simp_all add: lowercase_hex_def)


section \<open>The outcome of calcHash\<close>

lemma calcHash_result_eq:
  "fst (calcHash M p s) =
     (if truthy (snd (calc_decode M (fst (calc_alloc M p s)) (fst (hash_call M p s))
                        (snd (hash_call M p s))))
      then Thrown (fst (calc_decode M (fst (calc_alloc M p s)) (fst (hash_call M p s))
                        (snd (hash_call M p s))))
      else Returned (fst (calc_decode M (fst (calc_alloc M p s)) (fst (hash_call M p s))
                        (snd (hash_call M p s)))))"
  by (simp add: calcHash_def hash_call_def Let_def split_beta)

lemma calc_decode_success:
  "calc_decode M a (Inr 0) s =
     (ResHash \<lparr>hash = map (\<lambda>j. HEAP8 M s (a_hash a + j)) [0..<a_hashlen a],
               hashHex = lowercase_hex (map (\<lambda>j. HEAP8 M s (a_hash a + j)) [0..<a_hashlen a]),
               encoded = Pointer_stringify M (a_encoded a) s\<rparr>, JUndefined)"
  by (simp add: calc_decode_def read_hash_result)

lemma calc_decode_failure:
  "r \<noteq> Inr 0 \<Longrightarrow>
   \<exists>e. calc_decode M a r s = (ResError e, message e)
     \<and> code e = (case r of Inl x \<Rightarrow> None | Inr n \<Rightarrow> Some n)"
  by (cases r) (auto simp: calc_decode_def Let_def)

lemma calc_decode_thrown:
  "truthy x \<Longrightarrow> calc_decode M a (Inl x) s = (ResError \<lparr>message = x, code = None\<rparr>, x)"
  by (simp add: calc_decode_def Let_def)

lemma calc_decode_lookup:
  "r \<noteq> Inr 0 \<Longrightarrow> lookup_total M \<Longrightarrow> truthy (snd (calc_decode M a r s))"
proof -
  assume r: "r \<noteq> Inr 0" and l: "lookup_total M"
  have look: "\<And>n. \<exists>ptr. argon2_error_message M n s = Inr ptr \<and> Pointer_stringify M ptr s \<noteq> []"
    using l by (simp add: lookup_total_def)
  show ?thesis
  proof (cases r)
    case (Inl x)
    from look [of 0] obtain ptr where
      "argon2_error_message M 0 s = Inr ptr" "Pointer_stringify M ptr s \<noteq> []" by blast
    with Inl show ?thesis by (simp add: calc_decode_def Let_def)
  next
    case (Inr n)
    from look [of n] obtain ptr where
      "argon2_error_message M n s = Inr ptr" "Pointer_stringify M ptr s \<noteq> []" by blast
    with Inr r show ?thesis by (simp add: calc_decode_def Let_def)
  qed
qed

text \<open>
  C5. A run of \<open>calcHash\<close> returns the success result exactly when the hashing function
  returned status 0 and threw nothing. The raw hash then consists of the \<open>hashLen\<close> bytes
  read from the output buffer, the hex form is their lowercase hexadecimal encoding of
  length \<open>2 * hashLen\<close>, and the encoded form is the text read at the encoded buffer.
  In every other case the outcome carries the error object with the status as its code;
  it is thrown whenever its message is truthy, which is so for a truthy caught exception
  and for every engine whose message lookup yields a text that is not empty. Returning
  the success result and throwing exclude each other.
\<close>

theorem calcHash_outcome:
  "((\<exists>h. fst (calcHash M p s) = Returned (ResHash h)) \<longleftrightarrow> fst (hash_call M p s) = Inr 0)
   \<and> (fst (hash_call M p s) = Inr 0 \<longrightarrow>
        (\<exists>bytes. bytes = map (\<lambda>j. HEAP8 M (snd (hash_call M p s))
                                 (a_hash (fst (calc_alloc M p s)) + j))
                             [0..<or_default (hashLen p) 24]
           \<and> fst (calcHash M p s) =
               Returned (ResHash \<lparr>hash = bytes, hashHex = lowercase_hex bytes,
                  encoded = Pointer_stringify M (a_encoded (fst (calc_alloc M p s)))
                              (snd (hash_call M p s))\<rparr>)
           \<and> length bytes = or_default (hashLen p) 24
           \<and> length (lowercase_hex bytes) = 2 * or_default (hashLen p) 24))
   \<and> (fst (hash_call M p s) \<noteq> Inr 0 \<longrightarrow>
        (\<exists>e. code e = (case fst (hash_call M p s) of Inl x \<Rightarrow> None | Inr n \<Rightarrow> Some n)
           \<and> fst (calcHash M p s) =
               (if truthy (message e) then Thrown (ResError e) else Returned (ResError e))))
   \<and> (fst (hash_call M p s) \<noteq> Inr 0 \<and> lookup_total M \<longrightarrow>
        (\<exists>e. fst (calcHash M p s) = Thrown (ResError e) \<and> truthy (message e)))
   \<and> (\<forall>x. fst (hash_call M p s) = Inl x \<and> truthy x \<longrightarrow>
        fst (calcHash M p s) = Thrown (ResError \<lparr>message = x, code = None\<rparr>))
   \<and> \<not> ((\<exists>h. fst (calcHash M p s) = Returned (ResHash h)) \<and> (\<exists>r. fst (calcHash M p s) = Thrown r))"
proof -
  let ?a = "fst (calc_alloc M p s)"
  let ?r = "fst (hash_call M p s)"
  let ?s5 = "snd (hash_call M p s)"
  let ?out = "fst (calcHash M p s)"
  have hl: "a_hashlen ?a = or_default (hashLen p) 24"
    by (simp add: calc_alloc_def Let_def split_beta)
  have ok: "?r = Inr 0 \<Longrightarrow>
      ?out = Returned (ResHash
        \<lparr>hash = map (\<lambda>j. HEAP8 M ?s5 (a_hash ?a + j)) [0..<or_default (hashLen p) 24],
         hashHex = lowercase_hex (map (\<lambda>j. HEAP8 M ?s5 (a_hash ?a + j)) [0..<or_default (hashLen p) 24]),
         encoded = Pointer_stringify M (a_encoded ?a) ?s5\<rparr>)"
    by (simp add: calcHash_result_eq calc_decode_success hl)
  have bad: "?r \<noteq> Inr 0 \<Longrightarrow>
      \<exists>e. code e = (case ?r of Inl x \<Rightarrow> None | Inr n \<Rightarrow> Some n)
        \<and> ?out = (if truthy (message e) then Thrown (ResError e) else Returned (ResError e))"
  proof -
    assume "?r \<noteq> Inr 0"
    from calc_decode_failure [OF this, of M ?a ?s5] obtain e where
      e: "calc_decode M ?a ?r ?s5 = (ResError e, message e)"
         "code e = (case ?r of Inl x \<Rightarrow> None | Inr n \<Rightarrow> Some n)" by blast
    then show ?thesis by (auto simp: calcHash_result_eq)
  qed
  have c1: "(\<exists>h. ?out = Returned (ResHash h)) \<longleftrightarrow> ?r = Inr 0"
  proof
    assume "\<exists>h. ?out = Returned (ResHash h)"
    then obtain h where h: "?out = Returned (ResHash h)" by blast
    show "?r = Inr 0"
    proof (rule ccontr)
      assume "?r \<noteq> Inr 0"
      from bad [OF this] obtain e where
        "?out = (if truthy (message e) then Thrown (ResError e) else Returned (ResError e))"
        by blast
      with h show False by (simp split: if_splits)
    qed
  next
    assume "?r = Inr 0"
    from ok [OF this] show "\<exists>h. ?out = Returned (ResHash h)" by blast
  qed
  have c2: "?r = Inr 0 \<longrightarrow>
        (\<exists>bytes. bytes = map (\<lambda>j. HEAP8 M ?s5 (a_hash ?a + j)) [0..<or_default (hashLen p) 24]
           \<and> ?out = Returned (ResHash \<lparr>hash = bytes, hashHex = lowercase_hex bytes,
                  encoded = Pointer_stringify M (a_encoded ?a) ?s5\<rparr>)
           \<and> length bytes = or_default (hashLen p) 24
           \<and> length (lowercase_hex bytes) = 2 * or_default (hashLen p) 24)"
    using ok by (simp add: length_lowercase_hex)
  have c3: "?r \<noteq> Inr 0 \<longrightarrow>
        (\<exists>e. code e = (case ?r of Inl x \<Rightarrow> None | Inr n \<Rightarrow> Some n)
           \<and> ?out = (if truthy (message e) then Thrown (ResError e) else Returned (ResError e)))"
    using bad by blast
  have c4: "?r \<noteq> Inr 0 \<and> lookup_total M \<longrightarrow>
        (\<exists>e. ?out = Thrown (ResError e) \<and> truthy (message e))"
  proof
    assume h: "?r \<noteq> Inr 0 \<and> lookup_total M"
    then have t: "truthy (snd (calc_decode M ?a ?r ?s5))"
      by (simp add: calc_decode_lookup)
    from h calc_decode_failure [of ?r M ?a ?s5] obtain e where
      "calc_decode M ?a ?r ?s5 = (ResError e, message e)" by blast
    with t show "\<exists>e. ?out = Thrown (ResError e) \<and> truthy (message e)"
      by (auto simp: calcHash_result_eq)
  qed
  have c5: "\<forall>x. ?r = Inl x \<and> truthy x \<longrightarrow> ?out = Thrown (ResError \<lparr>message = x, code = None\<rparr>)"
    by (simp add: calcHash_result_eq calc_decode_thrown)
  have c6: "\<not> ((\<exists>h. ?out = Returned (ResHash h)) \<and> (\<exists>r. ?out = Thrown r))"
    by auto
  show ?thesis using c1 c2 c3 c4 c5 c6 by blast
qed


section \<open>Facts about the small engine\<close>

lemma toy_hash_call: "fst (hash_call (toy_engine status msg ft) p s) = Inr status"
  by (simp add: hash_call_def toy_engine_def)

lemma toy_lookup_total: "msg \<noteq> [] \<Longrightarrow> lookup_total (toy_engine status msg ft)"
  by (simp add: lookup_total_def toy_engine_def)


lemma example_lengths:
  "length (to_array (StrIn password)) = 9" "length (to_array (StrIn somesalt)) = 9"
  "length password = 8" "length somesalt = 8"
  by (simp_all add: to_array_def intArrayFromString_def password_def somesalt_def
        utf8_char_def surrogate_def)

lemma example_fields:
  "pass (example_params w) = StrIn password" "salt (example_params w) = StrIn somesalt"
  by (simp_all add: example_params_def)

lemma toy_calc_alloc:
  "fst (calc_alloc (toy_engine status msg ft) (example_params w) 0) =
     \<lparr>a_tCost = 1, a_mCost = 1024, a_parallelism = 1, a_pwd = 0, a_pwdlen = 8, a_salt = 9,
      a_saltlen = 8, a_hash = 18, a_hashlen = 24, a_encoded = 42, a_encodedlen = 512,
      a_argon2Type = 0, a_version = 19\<rparr>"
  by (simp add: calc_alloc_def Let_def split_beta or_default_def example_params_def
      toy_engine_def allocateArray_def example_lengths Argon2d_def)

theorem calcHash_outcome_witness:
  "(\<exists>h. fst (calcHash (toy_engine 0 ''OK'' False) (example_params None) 0) = Returned (ResHash h)
      \<and> length (hash h) = 24 \<and> length (hashHex h) = 48 \<and> encoded h = ''$argon2d$v=19$'')
   \<and> (\<exists>e. fst (calcHash (toy_engine (- 6) ''Salt is too short'' False) (example_params None) 0) =
          Thrown (ResError e) \<and> code e = Some (- 6) \<and> truthy (message e))
   \<and> fst (calcHash (throwing_engine (JObj ''RuntimeError'')) (example_params None) 0) =
       Thrown (ResError \<lparr>message = JObj ''RuntimeError'', code = None\<rparr>)"
proof -
  let ?p = "example_params None"
  let ?M0 = "toy_engine 0 ''OK'' False"
  let ?M1 = "toy_engine (- 6) ''Salt is too short'' False"
  have d: "or_default (hashLen ?p) 24 = 24"
    by (simp add: or_default_def example_params_def)
  have e: "Pointer_stringify ?M0 (a_encoded (fst (calc_alloc ?M0 ?p 0))) (snd (hash_call ?M0 ?p 0)) =
      ''$argon2d$v=19$''"
    by (simp add: toy_calc_alloc) (simp add: toy_engine_def)
  have a: "\<exists>h. fst (calcHash ?M0 ?p 0) = Returned (ResHash h)
      \<and> length (hash h) = 24 \<and> length (hashHex h) = 48 \<and> encoded h = ''$argon2d$v=19$''"
    using calcHash_outcome [of ?M0 ?p 0, THEN conjunct2, THEN conjunct1] toy_hash_call [of 0 "''OK''" False ?p 0]
    by (auto simp: d e)
  have l: "lookup_total ?M1" by (simp add: toy_lookup_total)
  have r: "fst (hash_call ?M1 ?p 0) = Inr (- 6)" by (rule toy_hash_call)
  have "\<exists>e. code e = Some (- 6) \<and> fst (calcHash ?M1 ?p 0) =
          (if truthy (message e) then Thrown (ResError e) else Returned (ResError e))"
    using calcHash_outcome [of ?M1 ?p 0, THEN conjunct2, THEN conjunct2, THEN conjunct1] r
    by simp
  moreover have "\<exists>e. fst (calcHash ?M1 ?p 0) = Thrown (ResError e) \<and> truthy (message e)"
    using calcHash_outcome [of ?M1 ?p 0, THEN conjunct2, THEN conjunct2, THEN conjunct2,
        THEN conjunct1] r l
    by simp
  ultimately have b: "\<exists>e. fst (calcHash ?M1 ?p 0) = Thrown (ResError e) \<and> code e = Some (- 6)
      \<and> truthy (message e)"
    by (auto split: if_splits)
  have x: "fst (hash_call (throwing_engine (JObj ''RuntimeError'')) ?p 0) = Inl (JObj ''RuntimeError'')
      \<and> truthy (JObj ''RuntimeError'')"
    by (simp add: hash_call_def throwing_engine_def)
  have c: "fst (calcHash (throwing_engine (JObj ''RuntimeError'')) ?p 0) =
       Thrown (ResError \<lparr>message = JObj ''RuntimeError'', code = None\<rparr>)"
    using calcHash_outcome [of "throwing_engine (JObj ''RuntimeError'')" ?p 0, THEN conjunct2,
        THEN conjunct2, THEN conjunct2, THEN conjunct2, THEN conjunct1] x
    by blast
  show ?thesis using a b c by blast
qed

text \<open>
  When the status is not 0, nothing was thrown and the message lookup itself throws,
  \<open>err\<close> stays undefined and the error object is returned.
\<close>

lemma calcHash_returns_error_object:
  "fst (calcHash
         ((toy_engine 1 ''Output pointer is NULL'' False)
            \<lparr>argon2_error_message := (\<lambda>n s. Inl (JObj ''TypeError''))\<rparr>)
         (example_params None) 0) =
     Returned (ResError \<lparr>message = JUndefined, code = Some 1\<rparr>)"
  by (simp add: calcHash_result_eq hash_call_def calc_decode_def toy_engine_def)

section \<open>Releases\<close>

lemma allocated_append: "allocated (xs @ ys) = allocated xs @ allocated ys"
  by (induction xs rule: allocated.induct) simp_all

lemma released_append: "released (xs @ ys) = released xs @ released ys"
  by (induction xs rule: released.induct) simp_all

lemma outstanding_append: "outstanding (xs @ ys) live = outstanding ys (outstanding xs live)"
  by (induction xs live rule: outstanding.induct) simp_all

lemma outstanding_releases: "outstanding (map Release ptrs) ptrs = []"
  by (induction ptrs) simp_all

lemma allocated_free_all: "allocated (fst (free_all M ptrs s)) = []"
  by (induction ptrs arbitrary: s) (simp_all add: split_beta split: option.splits)

lemma calcHash_allocated:
  "allocated (fst (snd (calcHash M p s))) =
     [a_pwd (fst (calc_alloc M p s)), a_salt (fst (calc_alloc M p s)),
      a_hash (fst (calc_alloc M p s)), a_encoded (fst (calc_alloc M p s))]"
  by (simp add: calcHash_trace calc_alloc_trace allocated_append allocated_free_all
      del: free_all.simps)

lemma calcHash_released:
  "released (fst (snd (calcHash M p s))) =
     released (fst (free_all M
       [a_pwd (fst (calc_alloc M p s)), a_salt (fst (calc_alloc M p s)),
        a_hash (fst (calc_alloc M p s)), a_encoded (fst (calc_alloc M p s))]
       (snd (hash_call M p s))))"
  by (simp add: calcHash_trace calc_alloc_trace released_append del: free_all.simps)

lemma calc_alloc_free: "calc_alloc (M\<lparr>free := f\<rparr>) p s = calc_alloc M p s"
  by (simp add: calc_alloc_def allocateArray_def)

lemma hash_call_free: "hash_call (M\<lparr>free := f\<rparr>) p s = hash_call M p s"
  by (simp add: hash_call_def calc_alloc_free)

lemma calc_decode_free: "calc_decode (M\<lparr>free := f\<rparr>) a r s = calc_decode M a r s"
proof (cases r)
  case (Inl x)
  then show ?thesis by (simp add: calc_decode_def Let_def split: sum.splits)
next
  case (Inr n)
  show ?thesis
  proof (cases "n = 0")
    case True
    with Inr show ?thesis by (simp add: calc_decode_success)
  next
    case False
    with Inr show ?thesis by (simp add: calc_decode_def Let_def split: sum.splits)
  qed
qed

lemma calcHash_free_irrelevant: "fst (calcHash (M\<lparr>free := f\<rparr>) p s) = fst (calcHash M p s)"
  by (simp add: calcHash_result_eq hash_call_free calc_alloc_free calc_decode_free)


lemma calc_alloc_allocate_all:
  "(buffers M p s, snd (snd (calc_alloc M p s))) =
     allocate_all M [to_array (pass p), to_array (salt p),
                     replicate (or_default (hashLen p) 24) 0, replicate 512 0] s"
  by (simp add: buffers_def calc_alloc_def allocateArray_def Let_def split_beta)

lemma calcHash_buffers: "allocated (fst (snd (calcHash M p s))) = buffers M p s"
  by (simp add: calcHash_allocated buffers_def Let_def)

lemma calcHash_free_all:
  "fst (snd (calcHash M p s)) =
     fst (snd (calc_alloc M p s)) @ [Invoke (fst (calc_alloc M p s))] @
     fst (free_all M (buffers M p s) (snd (hash_call M p s)))"
  "snd (snd (calcHash M p s)) = snd (free_all M (buffers M p s) (snd (hash_call M p s)))"
  by (simp_all add: calcHash_def hash_call_def buffers_def Let_def split_beta
      del: free_all.simps)

lemma free_all_ok:
  "releases_ok M ptrs s \<Longrightarrow> free_all M ptrs s = (map Release ptrs, release_all M ptrs s)"
proof (induction ptrs arbitrary: s)
  case Nil
  then show ?case by simp
next
  case (Cons ptr ptrs)
  from Cons.prems have n: "fst (free M ptr s) = None"
    and r: "releases_ok M ptrs (snd (free M ptr s))" by simp_all
  obtain e s' where f: "free M ptr s = (e, s')" by (cases "free M ptr s")
  with n have e: "e = None" by simp
  from Cons.IH [OF r] f e show ?case by simp
qed

lemma free_all_throws:
  "k < length ptrs \<Longrightarrow> releases_ok M (take k ptrs) s \<Longrightarrow>
   fst (free M (ptrs ! k) (release_all M (take k ptrs) s)) \<noteq> None \<Longrightarrow>
   free_all M ptrs s =
     (map Release (take k ptrs) @ [ReleaseFailed (ptrs ! k)],
      snd (free M (ptrs ! k) (release_all M (take k ptrs) s)))"
proof (induction ptrs arbitrary: k s)
  case Nil
  then show ?case by simp
next
  case (Cons ptr ptrs)
  obtain e s' where f: "free M ptr s = (e, s')" by (cases "free M ptr s")
  show ?case
  proof (cases k)
    case 0
    with Cons.prems f obtain x where "e = Some x" by (cases e) simp_all
    with 0 f show ?thesis by simp
  next
    case (Suc j)
    with Cons.prems f have e: "e = None" and j: "j < length ptrs"
      and r: "releases_ok M (take j ptrs) s'"
      and t: "fst (free M (ptrs ! j) (release_all M (take j ptrs) s')) \<noteq> None"
      by simp_all
    from Cons.IH [OF j r t] Suc f e show ?thesis by simp
  qed
qed

lemma released_map_Release: "released (map Release ptrs) = ptrs"
  by (induction ptrs) simp_all

lemma released_calc_alloc: "released (fst (snd (calc_alloc M p s)) @ [Invoke a]) = []"
  by (simp add: calc_alloc_trace)

text \<open>The book-keeping engine.\<close>

lemma ledger_allocate:
  "allocate (ledger_engine r f) bs l =
     (lg_next l, \<lparr>lg_next = lg_next l + length bs, lg_live = lg_live l @ [lg_next l],
                  lg_written = lg_written l @ [(lg_next l, bs)]\<rparr>)"
  by (simp add: ledger_engine_def)

lemma ledger_free:
  "free (ledger_engine r f) ptr l =
     (if ptr \<in> set f then (Some (JObj ''abort''), l)
      else (None, l\<lparr>lg_live := remove1 ptr (lg_live l)\<rparr>))"
  by (simp add: ledger_engine_def)

lemma ledger_hash: "argon2_hash (ledger_engine r f) a l = (r, l)"
  by (simp add: ledger_engine_def)

lemma ledger_allocate_all:
  "lg_live (snd (allocate_all (ledger_engine r f) bss l)) =
     lg_live l @ fst (allocate_all (ledger_engine r f) bss l)"
  by (induction bss arbitrary: l) (simp_all add: ledger_allocate split_beta)

lemma ledger_releases_ok: "releases_ok (ledger_engine r []) ptrs l"
  by (induction ptrs arbitrary: l) (simp_all add: ledger_free)

lemma ledger_release_all:
  "mset (lg_live (release_all (ledger_engine r []) ptrs l)) = mset (lg_live l) - mset ptrs"
  by (induction ptrs arbitrary: l) (simp_all add: ledger_free)

lemma ledger_calcHash:
  "mset (lg_live (snd (snd (calcHash (ledger_engine r []) q l)))) = mset (lg_live l)"
proof -
  let ?L = "ledger_engine r []"
  let ?s5 = "snd (hash_call ?L q l)"
  have "snd (snd (calcHash ?L q l)) = release_all ?L (buffers ?L q l) ?s5"
    by (simp add: calcHash_free_all(2) free_all_ok [OF ledger_releases_ok])
  moreover have "lg_live ?s5 = lg_live l @ buffers ?L q l"
  proof -
    let ?bss = "[to_array (pass q), to_array (salt q),
                 replicate (or_default (hashLen q) 24) 0, replicate 512 0]"
    have aa: "allocate_all ?L ?bss l = (buffers ?L q l, snd (snd (calc_alloc ?L q l)))"
      by (rule calc_alloc_allocate_all [symmetric])
    have "lg_live (snd (snd (calc_alloc ?L q l))) = lg_live l @ buffers ?L q l"
      using ledger_allocate_all [of r "[]" ?bss l] by (simp only: aa fst_conv snd_conv)
    then show ?thesis by (simp add: hash_call_def ledger_hash)
  qed
  ultimately show ?thesis by (simp add: ledger_release_all)
qed

text \<open>
  C6 (amended). Whatever the hashing function does (status 0, another status, or a
  throw), a run obtains its four buffers (password, salt, hash, encoded) from the engine's
  allocator, one call each, and the outcome of the run does not depend on what
  \<open>_free\<close> does. When no release throws, \<open>_free\<close> is applied once to each of the
  four buffers, in the order of their allocation and after the invocation, and no
  allocation is outstanding; on the book-keeping engine the live allocations are then
  those from before the run. When the release of buffer \<open>k\<close> throws, the earlier
  buffers have been released, and the later ones are not: the engine is left as that
  throwing call left it.
\<close>

theorem calcHash_releases:
  "(buffers M p s, snd (snd (calc_alloc M p s))) =
      allocate_all M [to_array (pass p), to_array (salt p),
                      replicate (or_default (hashLen p) 24) 0, replicate 512 0] s
   \<and> allocated (fst (snd (calcHash M p s))) = buffers M p s
   \<and> (releases_ok M (buffers M p s) (snd (hash_call M p s)) \<longrightarrow>
        snd (snd (calcHash M p s)) = release_all M (buffers M p s) (snd (hash_call M p s))
        \<and> fst (snd (calcHash M p s)) =
            fst (snd (calc_alloc M p s)) @ [Invoke (fst (calc_alloc M p s))] @
            map Release (buffers M p s)
        \<and> released (fst (snd (calcHash M p s))) = buffers M p s
        \<and> outstanding (fst (snd (calcHash M p s))) [] = [])
   \<and> (\<forall>k<4. releases_ok M (take k (buffers M p s)) (snd (hash_call M p s))
          \<and> fst (free M (buffers M p s ! k)
                  (release_all M (take k (buffers M p s)) (snd (hash_call M p s)))) \<noteq> None \<longrightarrow>
        snd (snd (calcHash M p s)) =
          snd (free M (buffers M p s ! k)
                 (release_all M (take k (buffers M p s)) (snd (hash_call M p s))))
        \<and> released (fst (snd (calcHash M p s))) = take k (buffers M p s))
   \<and> fst (calcHash (M\<lparr>free := f\<rparr>) p s) = fst (calcHash M p s)
   \<and> mset (lg_live (snd (snd (calcHash (ledger_engine r []) q l)))) = mset (lg_live l)"
proof -
  let ?a = "fst (calc_alloc M p s)"
  let ?tr = "fst (snd (calcHash M p s))"
  let ?B = "buffers M p s"
  let ?s5 = "snd (hash_call M p s)"
  have len: "length ?B = 4" by (simp add: buffers_def Let_def)
  have ok: "releases_ok M ?B ?s5 \<longrightarrow>
        snd (snd (calcHash M p s)) = release_all M ?B ?s5
        \<and> ?tr = fst (snd (calc_alloc M p s)) @ [Invoke ?a] @ map Release ?B
        \<and> released ?tr = ?B \<and> outstanding ?tr [] = []"
  proof
    assume r: "releases_ok M ?B ?s5"
    note fa = free_all_ok [OF r]
    have st: "snd (snd (calcHash M p s)) = release_all M ?B ?s5"
      by (simp only: calcHash_free_all(2) fa snd_conv)
    have shape: "?tr = fst (snd (calc_alloc M p s)) @ [Invoke ?a] @ map Release ?B"
      by (simp only: calcHash_free_all(1) fa fst_conv)
    have "released ?tr = released (fst (snd (calc_alloc M p s)) @ [Invoke ?a]) @ ?B"
      by (simp only: shape released_append released_map_Release append_assoc [symmetric])
    then have rel: "released ?tr = ?B" by (simp only: released_calc_alloc append_Nil)
    have out: "outstanding ?tr [] = []"
      by (subst shape) (simp add: outstanding_append calc_alloc_trace buffers_def Let_def)
    show "snd (snd (calcHash M p s)) = release_all M ?B ?s5
        \<and> ?tr = fst (snd (calc_alloc M p s)) @ [Invoke ?a] @ map Release ?B
        \<and> released ?tr = ?B \<and> outstanding ?tr [] = []"
      using st shape rel out by blast
  qed
  have th: "\<forall>k<4. releases_ok M (take k ?B) ?s5
          \<and> fst (free M (?B ! k) (release_all M (take k ?B) ?s5)) \<noteq> None \<longrightarrow>
        snd (snd (calcHash M p s)) = snd (free M (?B ! k) (release_all M (take k ?B) ?s5))
        \<and> released ?tr = take k ?B"
  proof (intro allI impI)
    fix k :: nat
    assume k: "k < 4"
    assume h: "releases_ok M (take k ?B) ?s5
          \<and> fst (free M (?B ! k) (release_all M (take k ?B) ?s5)) \<noteq> None"
    from k len have kl: "k < length ?B" by simp
    note fa = free_all_throws [OF kl h [THEN conjunct1] h [THEN conjunct2]]
    have st: "snd (snd (calcHash M p s)) =
        snd (free M (?B ! k) (release_all M (take k ?B) ?s5))"
      by (simp only: calcHash_free_all(2) fa snd_conv)
    have "released ?tr = take k ?B"
      by (simp add: calcHash_free_all(1) fa released_append released_map_Release
          calc_alloc_trace del: free_all.simps)
    with st show "snd (snd (calcHash M p s)) =
          snd (free M (?B ! k) (release_all M (take k ?B) ?s5))
        \<and> released ?tr = take k ?B"
      by blast
  qed
  show ?thesis
    using calc_alloc_allocate_all [of M p s] calcHash_buffers [of M p s] ok th
      calcHash_free_irrelevant [of f M p s] ledger_calcHash [of r q l]
    by blast
qed

lemma ledger_example:
  "buffers (ledger_engine r f) (example_params None) empty_ledger = [0, 9, 18, 42]"
  "lg_live (snd (hash_call (ledger_engine r f) (example_params None) empty_ledger)) =
     [0, 9, 18, 42]"
proof -
  let ?L = "ledger_engine r f"
  have "allocate_all ?L [to_array (pass (example_params None)),
      to_array (salt (example_params None)),
      replicate (or_default (hashLen (example_params None)) 24) 0, replicate 512 0]
      empty_ledger =
    ([0, 9, 18, 42],
     \<lparr>lg_next = 554, lg_live = [0, 9, 18, 42],
      lg_written = [(0, to_array (StrIn password)), (9, to_array (StrIn somesalt)),
                    (18, replicate 24 0), (42, replicate 512 0)]\<rparr>)"
    by (simp add: ledger_allocate empty_ledger_def example_params_def example_lengths
        or_default_def)
  with calc_alloc_allocate_all [of ?L "example_params None" empty_ledger]
  show "buffers ?L (example_params None) empty_ledger = [0, 9, 18, 42]"
    and "lg_live (snd (hash_call ?L (example_params None) empty_ledger)) = [0, 9, 18, 42]"
    by (simp_all add: hash_call_def ledger_hash del: allocate_all.simps)
qed

theorem calcHash_releases_witness:
  "lg_live (snd (snd (calcHash (ledger_engine (Inr 0) []) (example_params None) empty_ledger)))
     = []
   \<and> released (fst (snd (calcHash (ledger_engine (Inr 0) []) (example_params None)
        empty_ledger))) = [0, 9, 18, 42]
   \<and> lg_live (snd (snd (calcHash (ledger_engine (Inr 0) [18]) (example_params None)
        empty_ledger))) = [18, 42]
   \<and> released (fst (snd (calcHash (ledger_engine (Inr 0) [18]) (example_params None)
        empty_ledger))) = [0, 9]"
proof -
  let ?p = "example_params None"
  let ?L = "ledger_engine (Inr 0) []"
  let ?F = "ledger_engine (Inr 0) [18]"
  note T = calcHash_releases [of ?L ?p empty_ledger, THEN conjunct2, THEN conjunct2,
      THEN conjunct1, THEN mp, OF ledger_releases_ok]
  have a: "lg_live (snd (snd (calcHash ?L ?p empty_ledger))) = []"
    by (simp add: T [THEN conjunct1] ledger_example ledger_free)
  have b: "released (fst (snd (calcHash ?L ?p empty_ledger))) = [0, 9, 18, 42]"
    by (simp add: T [THEN conjunct2, THEN conjunct2, THEN conjunct1] ledger_example)
  have h: "releases_ok ?F (take 2 (buffers ?F ?p empty_ledger)) (snd (hash_call ?F ?p empty_ledger))
      \<and> fst (free ?F (buffers ?F ?p empty_ledger ! 2)
           (release_all ?F (take 2 (buffers ?F ?p empty_ledger))
              (snd (hash_call ?F ?p empty_ledger)))) \<noteq> None"
    by (simp add: ledger_example ledger_free)
  have two: "(2 :: nat) < 4" by simp
  note U = calcHash_releases [of ?F ?p empty_ledger, THEN conjunct2, THEN conjunct2,
      THEN conjunct2, THEN conjunct1, rule_format, OF two h]
  have c: "lg_live (snd (snd (calcHash ?F ?p empty_ledger))) = [18, 42]"
    by (simp add: U [THEN conjunct1] ledger_example ledger_free)
  have d: "released (fst (snd (calcHash ?F ?p empty_ledger))) = [0, 9]"
    by (simp add: U [THEN conjunct2] ledger_example)
  show ?thesis using a b c d by blast
qed

text \<open>
  The release of the salt buffer throws: the run returns the hash, and the salt, hash
  and encoded buffers stay allocated.
\<close>

theorem calcHash_releases_counterexample:
  "lg_live (snd (snd (calcHash (ledger_engine (Inr 0) [9]) (example_params None)
      empty_ledger))) = [9, 18, 42]
   \<and> fst (calcHash (ledger_engine (Inr 0) [9]) (example_params None) empty_ledger) =
       Returned (ResHash \<lparr>hash = replicate 24 0, hashHex = lowercase_hex (replicate 24 0),
                          encoded = ''$argon2d$v=19$''\<rparr>)"
proof -
  let ?p = "example_params None"
  let ?F = "ledger_engine (Inr 0) [9]"
  have "snd (snd (calcHash ?F ?p empty_ledger)) =
      snd (free_all ?F [0, 9, 18, 42] (snd (hash_call ?F ?p empty_ledger)))"
    by (simp only: calcHash_free_all(2) ledger_example)
  then have a: "lg_live (snd (snd (calcHash ?F ?p empty_ledger))) = [9, 18, 42]"
    by (simp add: ledger_free ledger_example)
  have r: "fst (hash_call ?F ?p empty_ledger) = Inr 0"
    by (simp add: hash_call_def ledger_hash)
  have l: "a_hashlen (fst (calc_alloc ?F ?p empty_ledger)) = 24"
    by (simp add: calc_alloc_lengths or_default_def example_params_def)
  have e: "a_encoded (fst (calc_alloc ?F ?p empty_ledger)) = 42"
    using ledger_example(1) [of "Inr 0" "[9]"] by (simp add: buffers_def Let_def)
  have h: "\<And>t j. HEAP8 ?F t j = 0" "\<And>t. Pointer_stringify ?F 42 t = ''$argon2d$v=19$''"
    by (simp_all add: ledger_engine_def)
  have "fst (calcHash ?F ?p empty_ledger) =
       Returned (ResHash \<lparr>hash = replicate 24 0, hashHex = lowercase_hex (replicate 24 0),
                          encoded = ''$argon2d$v=19$''\<rparr>)"
    by (simp add: calcHash_result_eq r calc_decode_success l e h map_replicate_const)
  with a show ?thesis by blast
qed

section \<open>Counting fetches and script loads\<close>

lemma settle_frame [simp]:
  "Module (settle c v st) = Module st"
  "globalModuleIsFullyLoaded (settle c v st) = globalModuleIsFullyLoaded st"
  "loadArgon2WrapperPromise (settle c v st) = loadArgon2WrapperPromise st"
  "wrapper_then (settle c v st) = wrapper_then st"
  "wrapper_catch (settle c v st) = wrapper_catch st"
  "retry_timers (settle c v st) = retry_timers st"
  "calc_timers (settle c v st) = calc_timers st"
  "xhr_pending (settle c v st) = xhr_pending st"
  "asm_pending (settle c v st) = asm_pending st"
  "xhr_log (settle c v st) = xhr_log st"
  "loadScript_log (settle c v st) = loadScript_log st"
  "calc_log (settle c v st) = calc_log st"
  "uncaught (settle c v st) = uncaught st"
  "heap (settle c v st) = heap st"
  "length (promises (settle c v st)) = length (promises st)"
  by (simp_all add: settle_def)

lemma fold_settle_frame [simp]:
  "Module (fold (\<lambda>c. settle c v) cs st) = Module st"
  "globalModuleIsFullyLoaded (fold (\<lambda>c. settle c v) cs st) = globalModuleIsFullyLoaded st"
  "loadArgon2WrapperPromise (fold (\<lambda>c. settle c v) cs st) = loadArgon2WrapperPromise st"
  "wrapper_then (fold (\<lambda>c. settle c v) cs st) = wrapper_then st"
  "wrapper_catch (fold (\<lambda>c. settle c v) cs st) = wrapper_catch st"
  "retry_timers (fold (\<lambda>c. settle c v) cs st) = retry_timers st"
  "calc_timers (fold (\<lambda>c. settle c v) cs st) = calc_timers st"
  "xhr_pending (fold (\<lambda>c. settle c v) cs st) = xhr_pending st"
  "asm_pending (fold (\<lambda>c. settle c v) cs st) = asm_pending st"
  "xhr_log (fold (\<lambda>c. settle c v) cs st) = xhr_log st"
  "loadScript_log (fold (\<lambda>c. settle c v) cs st) = loadScript_log st"
  "calc_log (fold (\<lambda>c. settle c v) cs st) = calc_log st"
  "uncaught (fold (\<lambda>c. settle c v) cs st) = uncaught st"
  "heap (fold (\<lambda>c. settle c v) cs st) = heap st"
  "length (promises (fold (\<lambda>c. settle c v) cs st)) = length (promises st)"
  by (induction cs arbitrary: st; simp)+

lemma resolve_calc_frame [simp]:
  "Module (resolve_calc M c p st) = Module st"
  "globalModuleIsFullyLoaded (resolve_calc M c p st) = globalModuleIsFullyLoaded st"
  "loadArgon2WrapperPromise (resolve_calc M c p st) = loadArgon2WrapperPromise st"
  "wrapper_then (resolve_calc M c p st) = wrapper_then st"
  "wrapper_catch (resolve_calc M c p st) = wrapper_catch st"
  "retry_timers (resolve_calc M c p st) = retry_timers st"
  "calc_timers (resolve_calc M c p st) = calc_timers st"
  "xhr_pending (resolve_calc M c p st) = xhr_pending st"
  "asm_pending (resolve_calc M c p st) = asm_pending st"
  "xhr_log (resolve_calc M c p st) = xhr_log st"
  "loadScript_log (resolve_calc M c p st) = loadScript_log st"
  "length (promises (resolve_calc M c p st)) = length (promises st)"
  by (simp_all add: resolve_calc_def Let_def split_beta split: outcome.splits)

lemma fallback_glue_frame [simp]:
  "globalModuleIsFullyLoaded (fallback_glue st) = globalModuleIsFullyLoaded st"
  "loadArgon2WrapperPromise (fallback_glue st) = loadArgon2WrapperPromise st"
  "wrapper_then (fallback_glue st) = wrapper_then st"
  "wrapper_catch (fallback_glue st) = wrapper_catch st"
  "promises (fallback_glue st) = promises st"
  "retry_timers (fallback_glue st) = retry_timers st"
  "calc_timers (fallback_glue st) = calc_timers st"
  "xhr_pending (fallback_glue st) = xhr_pending st"
  "asm_pending (fallback_glue st) = asm_pending st"
  "xhr_log (fallback_glue st) = xhr_log st"
  "loadScript_log (fallback_glue st) = loadScript_log st"
  "calc_log (fallback_glue st) = calc_log st"
  "uncaught (fallback_glue st) = uncaught st"
  "heap (fallback_glue st) = heap st"
  by (simp_all add: fallback_glue_def split: option.splits)

lemma fallback_glue_Module:
  "Module (fallback_glue st) = (case Module st of None \<Rightarrow> Some glue_module | Some m \<Rightarrow> Some m)"
  by (simp add: fallback_glue_def split: option.splits)

lemma fallback_glue_defined [simp]: "Module (fallback_glue st) \<noteq> None"
  by (simp add: fallback_glue_def split: option.splits)

lemma fallback_glue_same: "Module st \<noteq> None \<Longrightarrow> fallback_glue st = st"
  by (auto simp: fallback_glue_def split: option.splits)

lemma asm_then_frame [simp]:
  "Module (asm_then M c p st) = Module (fallback_glue st)"
  "globalModuleIsFullyLoaded (asm_then M c p st) = globalModuleIsFullyLoaded st"
  "loadArgon2WrapperPromise (asm_then M c p st) = loadArgon2WrapperPromise st"
  "wrapper_then (asm_then M c p st) = wrapper_then st"
  "wrapper_catch (asm_then M c p st) = wrapper_catch st"
  "retry_timers (asm_then M c p st) = retry_timers st"
  "calc_timers (asm_then M c p st) = calc_timers st"
  "xhr_pending (asm_then M c p st) = xhr_pending st"
  "asm_pending (asm_then M c p st) = asm_pending st"
  "xhr_log (asm_then M c p st) = xhr_log st"
  "loadScript_log (asm_then M c p st) = loadScript_log st"
  "length (promises (asm_then M c p st)) = length (promises st)"
  by (simp_all add: asm_then_def Let_def split_beta split: outcome.splits)

lemma native_frame: "Module st' = Module st \<Longrightarrow> native st' = native st"
  by (simp add: native_def)

lemma native_fallback_glue [simp]: "native (fallback_glue st) = native st"
  by (simp add: native_def fallback_glue_def glue_module_def split: option.splits)

lemma counted_frame:
  "Module st' = Module st \<Longrightarrow> xhr_log st' = xhr_log st \<Longrightarrow>
   loadArgon2WrapperPromise st' = loadArgon2WrapperPromise st \<Longrightarrow>
   loadScript_log st' = loadScript_log st \<Longrightarrow> xhr_pending st' = xhr_pending st \<Longrightarrow>
   globalModuleIsFullyLoaded st' = globalModuleIsFullyLoaded st \<Longrightarrow> counted st' = counted st"
  by (simp add: counted_def native_def fetches_def script_loads_def)

lemma counted_settle [simp]: "counted (settle c v st) = counted st"
  by (rule counted_frame) simp_all

lemma counted_resolve_calc [simp]: "counted (resolve_calc M c p st) = counted st"
  by (rule counted_frame) simp_all



lemma counted_on_wrapper_then [simp]: "counted (on_wrapper_then c p st) = counted st"
  by (rule counted_frame) (simp_all add: on_wrapper_then_def split: option.splits promise.splits)

lemma counted_on_wrapper_catch [simp]: "counted (on_wrapper_catch c st) = counted st"
  by (rule counted_frame) (simp_all add: on_wrapper_catch_def split: option.splits promise.splits)










lemma counted_fold_settle [simp]: "counted (fold (\<lambda>c. settle c v) cs st) = counted st"
  by (rule counted_frame) simp_all





lemma list_all_remove_nth: "list_all P xs \<Longrightarrow> list_all P (remove_nth k xs)"
  by (auto simp: remove_nth_def list_all_iff dest: in_set_takeD in_set_dropD)

lemma list_all_nth: "list_all P xs \<Longrightarrow> k < length xs \<Longrightarrow> P (xs ! k)"
  by (simp add: list_all_length)

lemma retry_primary_frame:
  "retry_timers st' = retry_timers st \<Longrightarrow> retry_primary h st' = retry_primary h st"
  by (simp add: retry_primary_def)

lemma asm_loads_frame:
  "loadScript_log st' = loadScript_log st \<Longrightarrow>
   script_loads AsmScript st' = script_loads AsmScript st"
  by (simp add: script_loads_def)














section \<open>The engine object stays\<close>

lemma run_append: "run h M (xs @ ys) st = run h M ys (run h M xs st)"
  by (induction xs arbitrary: st) simp_all




















lemma example_select:
  "select_backend browser (example_params None) = Fallback"
  "select_backend browser (example_params (Some ''argon2.wasm'')) = Primary"
  "mem (example_params w) = Some 1024"
  by (simp_all add: select_backend_def browser_def example_params_def truthy_url_def)



text \<open>
  A call on the primary path after a fallback script has run: the engine object that the
  glue defined exists without the flag, so the call only waits (line 93) and fetches
  nothing.
\<close>

lemma primary_after_fallback:
  "fetches (run browser M [Call (example_params None), AsmLoaded 0,
      Call (example_params (Some ''argon2.wasm''))] (init s)) = 0
   \<and> retry_timers (run browser M [Call (example_params None), AsmLoaded 0,
      Call (example_params (Some ''argon2.wasm''))] (init s)) =
        [(1, example_params (Some ''argon2.wasm''))]
   \<and> Module (run browser M [Call (example_params None), AsmLoaded 0,
      Call (example_params (Some ''argon2.wasm''))] (init s)) = Some glue_module"
  by (simp add: argon2Hash_def example_select executor_def init_def remove_nth_def
      fetches_def fallback_glue_Module)

section \<open>The readiness check\<close>

lemma flag_guarded_frame:
  "calc_timers st' = calc_timers st \<Longrightarrow> wrapper_then st' = wrapper_then st \<Longrightarrow>
   globalModuleIsFullyLoaded st' = globalModuleIsFullyLoaded st \<Longrightarrow>
   Module st' = Module st \<Longrightarrow> calc_log st' = calc_log st \<Longrightarrow> flag_guarded st' = flag_guarded st"
  by (simp add: flag_guarded_def)

lemma flag_guarded_settle [simp]: "flag_guarded (settle c v st) = flag_guarded st"
  by (rule flag_guarded_frame) simp_all

lemma flag_guarded_fold_settle [simp]: "flag_guarded (fold (\<lambda>c. settle c v) cs st) = flag_guarded st"
  by (rule flag_guarded_frame) simp_all

lemma resolve_calc_log:
  "calc_log (resolve_calc M c p st) = calc_log st @
     [\<lparr>ce_caller = c, ce_backend = Primary, ce_module = (Module st \<noteq> None),
       ce_loaded = globalModuleIsFullyLoaded st\<rparr>]"
  by (simp add: resolve_calc_def Let_def split_beta split: outcome.splits)

lemma asm_then_log:
  "calc_log (asm_then M c p st) = calc_log st @
     [\<lparr>ce_caller = c, ce_backend = Fallback, ce_module = True,
       ce_loaded = globalModuleIsFullyLoaded st\<rparr>]"
  by (simp add: asm_then_def Let_def split_beta del: not_None_eq split: outcome.splits)

lemma flag_guarded_resolve_calc:
  "flag_guarded st \<Longrightarrow> globalModuleIsFullyLoaded st \<Longrightarrow> flag_guarded (resolve_calc M c p st)"
  by (simp add: flag_guarded_def resolve_calc_log del: not_None_eq)

lemma flag_guarded_asm_then: "flag_guarded st \<Longrightarrow> flag_guarded (asm_then M c p st)"
  by (simp add: flag_guarded_def asm_then_log del: not_None_eq)

lemma flag_guarded_executor: "flag_guarded st \<Longrightarrow> flag_guarded (executor c p st)"
  by (auto simp: flag_guarded_def executor_def on_wrapper_then_def load_wrapper_def settle_def
      split: option.splits promise.splits)

lemma flag_guarded_argon2Hash: "flag_guarded st \<Longrightarrow> flag_guarded (argon2Hash h c p st)"
  by (cases "select_backend h p") (simp_all add: argon2Hash_def flag_guarded_executor, simp add: flag_guarded_def)

lemma flag_guarded_xhr_onload: "flag_guarded st \<Longrightarrow> flag_guarded (xhr_onload c p st)"
  by (auto simp: flag_guarded_def xhr_onload_def Let_def on_wrapper_catch_def load_wrapper_def settle_def
      split: option.splits promise.splits)

lemma flag_guarded_post_run: "flag_guarded st \<Longrightarrow> flag_guarded (post_run M st)"
proof (cases "Module st")
  case None
  then show "flag_guarded st \<Longrightarrow> ?thesis" by (simp add: post_run_def)
next
  case (Some m)
  assume g: "flag_guarded st"
  have "flag_guarded (st\<lparr>globalModuleIsFullyLoaded := True\<rparr>)"
    using g Some by (simp add: flag_guarded_def)
  then have "\<And>c p. flag_guarded (resolve_calc M c p (st\<lparr>globalModuleIsFullyLoaded := True\<rparr>))"
    by (rule flag_guarded_resolve_calc) simp
  then show ?thesis using g Some by (simp add: post_run_def split: option.splits prod.splits)
qed

lemma flag_guarded_wrapper_fulfilled: "flag_guarded st \<Longrightarrow> flag_guarded (wrapper_fulfilled st)"
  by (auto simp: flag_guarded_def wrapper_fulfilled_def)

lemma flag_guarded_wrapper_rejected: "flag_guarded st \<Longrightarrow> flag_guarded (wrapper_rejected e st)"
  by (auto simp: wrapper_rejected_def) (auto simp: flag_guarded_def)

lemma remove_nth_Nil: "remove_nth k xs \<noteq> [] \<Longrightarrow> xs \<noteq> []"
  by (auto simp: remove_nth_def)

lemma flag_guarded_step: "flag_guarded st \<Longrightarrow> flag_guarded (step h M e st)"
proof (cases e)
  case (Call p)
  assume "flag_guarded st"
  then have "flag_guarded (st\<lparr>promises := promises st @ [Pending]\<rparr>)" by (simp add: flag_guarded_def)
  then show ?thesis using Call by (simp add: flag_guarded_argon2Hash)
next
  case (RetryTimer k)
  assume "flag_guarded st"
  then have "flag_guarded (st\<lparr>retry_timers := remove_nth k (retry_timers st)\<rparr>)" by (simp add: flag_guarded_def)
  then show ?thesis using RetryTimer \<open>flag_guarded st\<close> by (simp add: flag_guarded_argon2Hash split: prod.splits)
next
  case (CalcTimer k)
  assume g: "flag_guarded st"
  show ?thesis
  proof (cases "k < length (calc_timers st)")
    case True
    then have ne: "calc_timers st \<noteq> []" by auto
    with g have l: "globalModuleIsFullyLoaded st" by (simp add: flag_guarded_def)
    let ?st = "st\<lparr>calc_timers := remove_nth k (calc_timers st)\<rparr>"
    have "flag_guarded ?st" using g l by (simp add: flag_guarded_def)
    then have "\<And>c p. flag_guarded (resolve_calc M c p ?st)"
      by (rule flag_guarded_resolve_calc) (simp add: l)
    then show ?thesis using CalcTimer True by (simp split: prod.splits)
  next
    case False
    then show ?thesis using CalcTimer g by simp
  qed
next
  case (XhrLoad k)
  assume "flag_guarded st"
  then have "flag_guarded (st\<lparr>xhr_pending := remove_nth k (xhr_pending st)\<rparr>)" by (simp add: flag_guarded_def)
  then show ?thesis using XhrLoad \<open>flag_guarded st\<close> by (simp add: flag_guarded_xhr_onload split: prod.splits)
next
  case (XhrError k)
  assume "flag_guarded st"
  then have "flag_guarded (st\<lparr>xhr_pending := remove_nth k (xhr_pending st)\<rparr>)" by (simp add: flag_guarded_def)
  then show ?thesis using XhrError \<open>flag_guarded st\<close> by (simp add: xhr_onerror_def split: prod.splits)
next
  case WrapperLoaded
  then show "flag_guarded st \<Longrightarrow> ?thesis" by (simp add: flag_guarded_wrapper_fulfilled)
next
  case (WrapperFailed x)
  then show "flag_guarded st \<Longrightarrow> ?thesis" by (simp add: flag_guarded_wrapper_rejected)
next
  case (AsmLoaded k)
  assume "flag_guarded st"
  then have "flag_guarded (st\<lparr>asm_pending := remove_nth k (asm_pending st)\<rparr>)" by (simp add: flag_guarded_def)
  then show ?thesis using AsmLoaded \<open>flag_guarded st\<close> by (simp add: flag_guarded_asm_then split: prod.splits)
next
  case (AsmFailed k x)
  assume "flag_guarded st"
  then have "flag_guarded (st\<lparr>asm_pending := remove_nth k (asm_pending st)\<rparr>)" by (simp add: flag_guarded_def)
  then show ?thesis using AsmFailed \<open>flag_guarded st\<close> by (simp split: prod.splits)
next
  case PostRun
  then show "flag_guarded st \<Longrightarrow> ?thesis" by (simp add: flag_guarded_post_run)
qed

lemma flag_guarded_run: "flag_guarded st \<Longrightarrow> flag_guarded (run h M es st)"
  by (induction es arbitrary: st) (simp_all add: flag_guarded_step)

lemma flag_guarded_init: "flag_guarded (init s)"
  by (simp add: flag_guarded_def init_def)

text \<open>
  C3 (amended). On the primary path \<open>calcHash\<close> runs only while the engine object
  exists and is flagged fully loaded: a call that finds the object without the flag only
  adds a timer, and the timer runs \<open>argon2Hash\<close> again. The fallback path does not
  consult the flag: it runs \<open>calcHash\<close> when its script has loaded, whatever the
  object and the flag are. The object exists by then, since the fallback glue defines it
  when the page has none.
\<close>

theorem primary_calc_only_when_loaded:
  "list_all (\<lambda>e. ce_backend e = Primary \<longrightarrow> ce_loaded e \<and> ce_module e)
     (calc_log (run h M es (init s)))
   \<and> (Module st \<noteq> None \<and> \<not> globalModuleIsFullyLoaded st \<longrightarrow>
        executor c p st = st\<lparr>retry_timers := retry_timers st @ [(c, p)]\<rparr>)
   \<and> step h M (RetryTimer (length (retry_timers st)))
        (st\<lparr>retry_timers := retry_timers st @ [(c, p)]\<rparr>) = argon2Hash h c p st
   \<and> calc_log (asm_then M c p st) = calc_log st @
        [\<lparr>ce_caller = c, ce_backend = Fallback, ce_module = True,
          ce_loaded = globalModuleIsFullyLoaded st\<rparr>]"
proof -
  have "flag_guarded (run h M es (init s))" by (rule flag_guarded_run) (rule flag_guarded_init)
  then have a: "list_all (\<lambda>e. ce_backend e = Primary \<longrightarrow> ce_loaded e \<and> ce_module e)
     (calc_log (run h M es (init s)))"
    by (simp add: flag_guarded_def)
  have b: "Module st \<noteq> None \<and> \<not> globalModuleIsFullyLoaded st \<longrightarrow>
        executor c p st = st\<lparr>retry_timers := retry_timers st @ [(c, p)]\<rparr>"
    by (simp add: executor_def)
  have d: "step h M (RetryTimer (length (retry_timers st)))
        (st\<lparr>retry_timers := retry_timers st @ [(c, p)]\<rparr>) = argon2Hash h c p st"
    by (simp add: remove_nth_def)
  show ?thesis using a b d asm_then_log [of M c p st] by blast
qed

section \<open>A caller stranded after a failed fetch\<close>

lemma settle_other: "c' \<noteq> c \<Longrightarrow> promises (settle c' v st) ! c = promises st ! c"
  by (simp add: settle_def)

lemma asm_then_other: "c' \<noteq> c \<Longrightarrow> promises (asm_then M c' p st) ! c = promises st ! c"
  by (simp add: asm_then_def Let_def split_beta settle_def split: outcome.splits)

lemma stranded_argon2Hash:
  assumes s: "stranded h c st" and ok: "c' = c \<longrightarrow> select_backend h p = Primary"
  shows "stranded h c (argon2Hash h c' p st)"
proof (cases "select_backend h p")
  case Primary
  from s have "executor c' p st = st\<lparr>retry_timers := retry_timers st @ [(c', p)]\<rparr>"
    by (simp add: stranded_def executor_def del: not_None_eq)
  then show ?thesis using s Primary by (simp add: argon2Hash_def stranded_def del: not_None_eq)
next
  case Fallback
  with ok have "c' \<noteq> c" by auto
  then show ?thesis using s Fallback by (simp add: argon2Hash_def stranded_def del: not_None_eq)
qed

lemma stranded_step: "stranded h c st \<Longrightarrow> stranded h c (step h M e st)"
proof (cases e)
  case (Call p)
  assume s: "stranded h c st"
  then have "stranded h c (st\<lparr>promises := promises st @ [Pending]\<rparr>)"
    by (simp add: stranded_def nth_append del: not_None_eq)
  moreover from s have "length (promises st) \<noteq> c" by (simp add: stranded_def)
  ultimately show ?thesis using Call by (simp add: stranded_argon2Hash)
next
  case (RetryTimer k)
  assume s: "stranded h c st"
  show ?thesis
  proof (cases "k < length (retry_timers st)")
    case True
    obtain c' p where cp: "retry_timers st ! k = (c', p)" by (cases "retry_timers st ! k")
    from s have la: "list_all (\<lambda>cp. fst cp = c \<longrightarrow> select_backend h (snd cp) = Primary) (retry_timers st)"
      by (simp add: stranded_def)
    from list_all_nth [OF la True] cp have ok: "c' = c \<longrightarrow> select_backend h p = Primary" by simp
    have "stranded h c (st\<lparr>retry_timers := remove_nth k (retry_timers st)\<rparr>)"
      using s la by (simp add: stranded_def list_all_remove_nth del: not_None_eq)
    from stranded_argon2Hash [OF this ok] show ?thesis using RetryTimer True cp by simp
  next
    case False
    then show ?thesis using RetryTimer s by simp
  qed
next
  case (CalcTimer k)
  then show "stranded h c st \<Longrightarrow> ?thesis" by (simp add: stranded_def)
next
  case (XhrLoad k)
  then show "stranded h c st \<Longrightarrow> ?thesis" by (simp add: stranded_def)
next
  case (XhrError k)
  then show "stranded h c st \<Longrightarrow> ?thesis" by (simp add: stranded_def)
next
  case WrapperLoaded
  then show "stranded h c st \<Longrightarrow> ?thesis"
    by (simp add: stranded_def wrapper_fulfilled_def del: not_None_eq)
next
  case (WrapperFailed x)
  then show "stranded h c st \<Longrightarrow> ?thesis"
    by (simp add: stranded_def wrapper_rejected_def del: not_None_eq)
next
  case (AsmLoaded k)
  assume s: "stranded h c st"
  show ?thesis
  proof (cases "k < length (asm_pending st)")
    case True
    obtain c' p where cp: "asm_pending st ! k = (c', p)" by (cases "asm_pending st ! k")
    from s have la: "list_all (\<lambda>cp. fst cp \<noteq> c) (asm_pending st)" by (simp add: stranded_def)
    from list_all_nth [OF la True] cp have ne: "c' \<noteq> c" by simp
    let ?st = "st\<lparr>asm_pending := remove_nth k (asm_pending st)\<rparr>"
    have "stranded h c ?st"
      using s la by (simp add: stranded_def list_all_remove_nth del: not_None_eq)
    moreover from s have "Module ?st \<noteq> None" by (simp add: stranded_def del: not_None_eq)
    then have "fallback_glue ?st = ?st" by (rule fallback_glue_same)
    ultimately have "stranded h c (asm_then M c' p ?st)"
      using asm_then_other [OF ne, of M p ?st]
      by (simp add: stranded_def del: not_None_eq)
    then show ?thesis using AsmLoaded True cp by simp
  next
    case False
    then show ?thesis using AsmLoaded s by simp
  qed
next
  case (AsmFailed k x)
  assume s: "stranded h c st"
  show ?thesis
  proof (cases "k < length (asm_pending st)")
    case True
    obtain c' p where cp: "asm_pending st ! k = (c', p)" by (cases "asm_pending st ! k")
    from s have la: "list_all (\<lambda>cp. fst cp \<noteq> c) (asm_pending st)" by (simp add: stranded_def)
    from list_all_nth [OF la True] cp have ne: "c' \<noteq> c" by simp
    let ?st = "st\<lparr>asm_pending := remove_nth k (asm_pending st)\<rparr>"
    have "stranded h c ?st"
      using s la by (simp add: stranded_def list_all_remove_nth del: not_None_eq)
    then have "stranded h c (settle c' (Rejected (RError (''Error loading argon2-asm.min.js: '' @ x))) ?st)"
      by (simp add: stranded_def settle_other [OF ne] del: not_None_eq)
    then show ?thesis using AsmFailed True cp by simp
  next
    case False
    then show ?thesis using AsmFailed s by simp
  qed
next
  case PostRun
  then show "stranded h c st \<Longrightarrow> ?thesis"
    by (auto simp: stranded_def post_run_def split: option.splits)
qed

lemma stranded_run: "stranded h c st \<Longrightarrow> stranded h c (run h M es st)"
  by (induction es arbitrary: st) (simp_all add: stranded_step)

lemma stranded_pending: "stranded h c st \<Longrightarrow> promises st ! c = Pending"
  by (simp add: stranded_def)

lemma example_urls:
  "cacheKey (example_params w) = None"
  "wasmFileUrl (example_params w) = w"
  "asmFileUrl (example_params w) = Some ''argon2-asm.min.js''"
  "argon2FileUrl (example_params w) = Some ''argon2.min.js''"
  by (simp_all add: example_params_def)

lemma after_failed_fetch:
  "run browser M [Call (example_params (Some ''argon2.wasm'')),
      Call (example_params (Some ''argon2.wasm'')), XhrError 0] (init s) =
   (init s)\<lparr>Module := Some
        \<lparr>wasmBinary = False, wasmJSMethod = ''native-wasm'',
         asmjsCodeFile = Some ''argon2-asm.min.js'', wasmBinaryFile = Some ''argon2.wasm'',
         wasmMemory_initial = initialMemory 1024, wasmMemory_maximum = totalMemory,
         TOTAL_MEMORY = initialMemory 1024 * WASM_PAGE_SIZE, postRun = None\<rparr>,
      promises := [Rejected (RText ''Error loading wasm undefined''), Pending],
      retry_timers := [(1, example_params (Some ''argon2.wasm''))],
      xhr_log := [Some ''argon2.wasm'']\<rparr>"
  by (simp add: argon2Hash_def example_select example_urls executor_def init_def
      xhr_onerror_def settle_def remove_nth_def to_text_def)

lemma late_after_failed_fetch:
  "run browser M [Call (example_params (Some ''argon2.wasm'')), XhrError 0,
      Call (example_params (Some ''argon2.wasm''))] (init s) =
   (init s)\<lparr>Module := Some
        \<lparr>wasmBinary = False, wasmJSMethod = ''native-wasm'',
         asmjsCodeFile = Some ''argon2-asm.min.js'', wasmBinaryFile = Some ''argon2.wasm'',
         wasmMemory_initial = initialMemory 1024, wasmMemory_maximum = totalMemory,
         TOTAL_MEMORY = initialMemory 1024 * WASM_PAGE_SIZE, postRun = None\<rparr>,
      promises := [Rejected (RText ''Error loading wasm undefined''), Pending],
      retry_timers := [(1, example_params (Some ''argon2.wasm''))],
      xhr_log := [Some ''argon2.wasm'']\<rparr>"
  by (simp add: argon2Hash_def example_select example_urls executor_def init_def
      xhr_onerror_def settle_def remove_nth_def to_text_def)

text \<open>
  C2. Two callers on the primary path and a failed fetch: the first promise is rejected
  with the message of line 163, and the promise of the second caller stays pending
  whatever happens afterwards. The same holds for a caller that arrives after the
  failure.
\<close>

theorem waiter_never_settles:
  "promises (run browser M
      ([Call (example_params (Some ''argon2.wasm'')),
        Call (example_params (Some ''argon2.wasm'')), XhrError 0] @ es) (init s)) ! 1 = Pending
   \<and> promises (run browser M
      ([Call (example_params (Some ''argon2.wasm'')), XhrError 0,
        Call (example_params (Some ''argon2.wasm''))] @ es) (init s)) ! 1 = Pending
   \<and> promises (run browser M
      [Call (example_params (Some ''argon2.wasm'')),
       Call (example_params (Some ''argon2.wasm'')), XhrError 0] (init s)) =
      [Rejected (RText ''Error loading wasm undefined''), Pending]"
proof -
  let ?P = "example_params (Some ''argon2.wasm'')"
  have s1: "stranded browser 1 (run browser M [Call ?P, Call ?P, XhrError 0] (init s))"
    by (simp only: after_failed_fetch) (simp add: stranded_def init_def example_select)
  have s2: "stranded browser 1 (run browser M [Call ?P, XhrError 0, Call ?P] (init s))"
    by (simp only: late_after_failed_fetch) (simp add: stranded_def init_def example_select)
  have a: "promises (run browser M ([Call ?P, Call ?P, XhrError 0] @ es) (init s)) ! 1 = Pending"
    by (simp only: run_append) (rule stranded_pending [OF stranded_run [OF s1]])
  have b: "promises (run browser M ([Call ?P, XhrError 0, Call ?P] @ es) (init s)) ! 1 = Pending"
    by (simp only: run_append) (rule stranded_pending [OF stranded_run [OF s2]])
  have c: "promises (run browser M [Call ?P, Call ?P, XhrError 0] (init s)) =
      [Rejected (RText ''Error loading wasm undefined''), Pending]"
    by (simp only: after_failed_fetch) (simp add: init_def)
  show ?thesis using a b c by blast
qed

section \<open>Evaluation of the readiness check\<close>

text \<open>
  A fallback call made while the primary backend is loading runs \<open>calcHash\<close> with the
  engine object present and the flag unset.
\<close>

theorem primary_calc_only_when_loaded_counterexample:
  "calc_log (run browser (toy_engine 0 ''OK'' False)
      [Call (example_params (Some ''argon2.wasm'')), Call (example_params None), AsmLoaded 0]
      (init 0)) =
     [\<lparr>ce_caller = 1, ce_backend = Fallback, ce_module = True, ce_loaded = False\<rparr>]"
  by (simp add: argon2Hash_def example_select example_urls executor_def init_def
      remove_nth_def asm_then_log)

lemma toy_calcHash_thrown:
  "status \<noteq> 0 \<Longrightarrow> msg \<noteq> [] \<Longrightarrow>
   fst (calcHash (toy_engine status msg ft) p s) =
     Thrown (ResError \<lparr>message = JStr msg, code = Some status\<rparr>)"
  by (simp add: calcHash_result_eq hash_call_def calc_decode_def toy_engine_def Let_def)

theorem primary_calc_only_when_loaded_witness:
  "calc_log (run browser (toy_engine 0 ''OK'' False)
      [Call (example_params (Some ''argon2.wasm'')), Call (example_params (Some ''argon2.wasm'')),
       XhrLoad 0, WrapperLoaded, PostRun, RetryTimer 0, CalcTimer 0] (init 0)) =
     [\<lparr>ce_caller = 0, ce_backend = Primary, ce_module = True, ce_loaded = True\<rparr>,
      \<lparr>ce_caller = 1, ce_backend = Primary, ce_module = True, ce_loaded = True\<rparr>]
   \<and> list_all (\<lambda>e. ce_loaded e \<and> ce_module e)
       (calc_log (run browser (toy_engine 0 ''OK'' False)
         [Call (example_params (Some ''argon2.wasm'')), Call (example_params (Some ''argon2.wasm'')),
          XhrLoad 0, WrapperLoaded, PostRun, RetryTimer 0, CalcTimer 0] (init 0)))"
proof -
  let ?P = "example_params (Some ''argon2.wasm'')"
  let ?es = "[Call ?P, Call ?P, XhrLoad 0, WrapperLoaded, PostRun, RetryTimer 0, CalcTimer 0]"
  let ?M = "toy_engine 0 ''OK'' False"
  have b: "map ce_backend (calc_log (run browser ?M ?es (init 0))) = [Primary, Primary]
      \<and> map ce_caller (calc_log (run browser ?M ?es (init 0))) = [0, 1]"
    by (simp add: argon2Hash_def example_select example_urls executor_def init_def
        remove_nth_def resolve_calc_log xhr_onload_def load_wrapper_def on_wrapper_catch_def
        on_wrapper_then_def wrapper_fulfilled_def post_run_def Let_def)
  have g: "list_all (\<lambda>e. ce_backend e = Primary \<longrightarrow> ce_loaded e \<and> ce_module e)
     (calc_log (run browser ?M ?es (init 0)))"
    by (rule primary_calc_only_when_loaded [of browser ?M ?es 0, THEN conjunct1])
  obtain e0 e1 where l: "calc_log (run browser ?M ?es (init 0)) = [e0, e1]"
    using b by (cases "calc_log (run browser ?M ?es (init 0))") (auto simp: Cons_eq_map_conv)
  from b g l have "e0 = \<lparr>ce_caller = 0, ce_backend = Primary, ce_module = True, ce_loaded = True\<rparr>"
    and "e1 = \<lparr>ce_caller = 1, ce_backend = Primary, ce_module = True, ce_loaded = True\<rparr>"
    by simp_all
  with l show ?thesis by simp
qed

section \<open>A failed hash as seen by the caller\<close>

lemma fallback_thrown:
  assumes "select_backend h p = Fallback" and "fst (calcHash M p s) = Thrown r"
  shows "promises (run h M [Call p, AsmLoaded 0] (init s)) =
     [Rejected (RError ''Error loading argon2-asm.min.js: [object Object]'')]"
proof -
  let ?s1 = "(init s)\<lparr>promises := [Pending], loadScript_log := [(AsmScript, asmFileUrl p)],
                asm_pending := [(0, p)]\<rparr>"
  have 1: "step h M (Call p) (init s) = ?s1"
    using assms(1) by (simp add: argon2Hash_def init_def)
  have 2: "promises (step h M (AsmLoaded 0) ?s1) =
     [Rejected (RError ''Error loading argon2-asm.min.js: [object Object]'')]"
    using assms(2)
    by (simp add: remove_nth_def asm_then_def Let_def split_beta settle_def init_def)
  show ?thesis
    using 2 by (simp only: run.simps 1)
qed

lemma primary_thrown:
  assumes "select_backend h p = Primary" and "mem p = Some m"
    and "fst (calcHash M p s) = Thrown r"
  shows "promises (run h M [Call p, XhrLoad 0, WrapperLoaded, PostRun] (init s)) = [Pending]
    \<and> uncaught (run h M [Call p, XhrLoad 0, WrapperLoaded, PostRun] (init s)) = [r]"
proof -
  let ?m = "\<lparr>wasmBinary = False, wasmJSMethod = ''native-wasm'',
             asmjsCodeFile = asmFileUrl p, wasmBinaryFile = wasmFileUrl p,
             wasmMemory_initial = initialMemory m, wasmMemory_maximum = totalMemory,
             TOTAL_MEMORY = initialMemory m * WASM_PAGE_SIZE, postRun = None\<rparr>"
  let ?s1 = "(init s)\<lparr>Module := Some ?m, promises := [Pending],
               xhr_pending := [(0, p)], xhr_log := [wasmFileUrl p]\<rparr>"
  have 1: "step h M (Call p) (init s) = ?s1"
    using assms(1,2) by (simp add: argon2Hash_def executor_def init_def)
  let ?s2 = "(init s)\<lparr>Module := Some (?m\<lparr>wasmBinary := True, postRun := Some (0, p)\<rparr>),
               loadArgon2WrapperPromise := Some PPending, wrapper_catch := [0],
               promises := [Pending], xhr_log := [wasmFileUrl p],
               loadScript_log := [(WrapperScript, argon2FileUrl p)]\<rparr>"
  have 2: "step h M (XhrLoad 0) ?s1 = ?s2"
    by (simp add: xhr_onload_def load_wrapper_def on_wrapper_catch_def remove_nth_def init_def)
  let ?s3 = "?s2\<lparr>loadArgon2WrapperPromise := Some PFulfilled, wrapper_catch := []\<rparr>"
  have 3: "step h M WrapperLoaded ?s2 = ?s3"
    by (simp add: wrapper_fulfilled_def init_def)
  have h3: "heap ?s3 = s" by (simp add: init_def)
  have 4: "promises (step h M PostRun ?s3) = [Pending] \<and> uncaught (step h M PostRun ?s3) = [r]"
    using assms(3)
    by (simp add: post_run_def resolve_calc_def Let_def split_beta h3) (simp add: init_def)
  show ?thesis
    using 4 by (simp only: run.simps 1 2 3)
qed

text \<open>
  C4. The engine reports status -6 for a salt of four bytes and \<open>calcHash\<close> throws the
  error object with that code and the looked-up message. On the fallback path the
  promise is rejected with an \<open>Error\<close> whose message is that of line 78 and which has no
  code; on the primary path the throw leaves \<open>postRun\<close> uncaught and the promise stays
  pending.
\<close>

theorem hash_error_is_lost:
  "fst (calcHash (toy_engine (- 6) ''Salt is too short'' False)
        ((example_params w)\<lparr>salt := StrIn [0x73, 0x61, 0x6C, 0x74]\<rparr>) 0) =
     Thrown (ResError \<lparr>message = JStr ''Salt is too short'', code = Some (- 6)\<rparr>)
   \<and> promises (run browser (toy_engine (- 6) ''Salt is too short'' False)
        [Call ((example_params None)\<lparr>salt := StrIn [0x73, 0x61, 0x6C, 0x74]\<rparr>), AsmLoaded 0]
        (init 0)) =
     [Rejected (RError ''Error loading argon2-asm.min.js: [object Object]'')]
   \<and> promises (run browser (toy_engine (- 6) ''Salt is too short'' False)
        [Call ((example_params (Some ''argon2.wasm''))\<lparr>salt := StrIn [0x73, 0x61, 0x6C, 0x74]\<rparr>),
         XhrLoad 0, WrapperLoaded, PostRun] (init 0)) =
     [Pending]
   \<and> uncaught (run browser (toy_engine (- 6) ''Salt is too short'' False)
        [Call ((example_params (Some ''argon2.wasm''))\<lparr>salt := StrIn [0x73, 0x61, 0x6C, 0x74]\<rparr>),
         XhrLoad 0, WrapperLoaded, PostRun] (init 0)) =
     [ResError \<lparr>message = JStr ''Salt is too short'', code = Some (- 6)\<rparr>]"
proof -
  let ?M = "toy_engine (- 6) ''Salt is too short'' False"
  let ?F = "(example_params None)\<lparr>salt := StrIn [0x73, 0x61, 0x6C, 0x74]\<rparr>"
  let ?P = "(example_params (Some ''argon2.wasm''))\<lparr>salt := StrIn [0x73, 0x61, 0x6C, 0x74]\<rparr>"
  have sel: "select_backend browser ?F = Fallback" "select_backend browser ?P = Primary"
    "mem ?P = Some 1024"
    by (simp_all add: select_backend_def browser_def example_params_def truthy_url_def)
  have t: "\<And>p s. fst (calcHash ?M p s) =
      Thrown (ResError \<lparr>message = JStr ''Salt is too short'', code = Some (- 6)\<rparr>)"
    by (rule toy_calcHash_thrown) simp_all
  show ?thesis
    using t fallback_thrown [OF sel(1) t] primary_thrown [OF sel(2) sel(3) t]
    by blast
qed

end
